theory Spec2Isabelle
  imports Main "HOL-Library.Product_Lexorder"
begin

section \<open>Data model (versioned\_editing/models.py)\<close>

text \<open>
  Primary keys, users and groups are natural numbers (the source uses UUIDs and foreign
  keys). A geometry is a value of a type parameter \<open>'g\<close>; the GEOS predicate
  \<open>geometry.equals\<close> is not part of the repository and is a parameter \<open>equals\<close> of every
  function that calls it. Properties (a JSON document) are values of a type parameter
  \<open>'p\<close> compared with \<open>=\<close> and \<open>\<noteq>\<close>, as the source does.
\<close>

datatype branch_status = Active | Merged | Closed | Deleted

datatype operation = CREATE | UPDATE | DELETE_OP | MERGE

datatype mr_status = MR_pending | MR_approved | MR_rejected | MR_merged | MR_conflicts

datatype conflict_type = GEOMETRY | PROPERTIES | BOTH | DELETE

record user_role =
  ur_user :: nat
  ur_group :: nat
  ur_role :: string
  can_approve_merges :: bool
  can_manage_branches :: bool

record edit_branch =
  br_id :: nat
  br_name :: string
  br_layer :: nat
  br_group :: "nat option"
  parent_branch :: "nat option"
  br_created_by :: nat
  br_status :: branch_status
  merged_at :: "nat option"

record ('g, 'p) feature_version =
  fv_id :: nat
  branch :: nat
  feature_id :: nat
  version :: int
  geometry :: 'g
  properties :: 'p
  operation :: operation
  is_deleted :: bool
  created_by :: nat
  comment :: "string option"

record merge_request =
  mr_id :: nat
  mr_source_branch :: nat
  mr_target_branch :: nat
  mr_status :: mr_status
  mr_created_by :: nat
  reviewed_by :: "nat option"
  review_comment :: "string option"
  reviewed_at :: "nat option"

record ('g, 'p) merge_conflict =
  mc_id :: nat
  mc_merge_request :: nat
  mc_feature_id :: nat
  mc_conflict_type :: conflict_type
  mc_source_version :: "('g, 'p) feature_version"
  mc_target_version :: "('g, 'p) feature_version option"
  mc_resolved :: bool
  mc_resolution_strategy :: "string option"
  mc_resolved_geometry :: "'g option"
  mc_resolved_properties :: "'p option"
  mc_resolved_by :: "nat option"
  mc_resolved_at :: "nat option"

record audit_entry =
  al_user :: nat
  al_action :: string
  al_entity_type :: string
  al_entity_id :: nat

text \<open>
  The request's user: \<open>profile_role\<close> is \<open>Some r\<close> when the user object has a
  \<open>profile\<close> with a \<open>role\<close> attribute \<open>r\<close>, and \<open>None\<close> otherwise. The user model is
  the one of GeoNode (settings.py imports GeoNode's settings), whose \<open>profile\<close> is a text
  field, and nothing in the repository gives a user a profile with a role: for the users
  of the configured system \<open>profile_role\<close> is \<open>None\<close>.
\<close>

record user =
  user_id :: nat
  is_superuser :: bool
  profile_role :: "string option"

text \<open>
  The persisted state: one list of rows per table, in insertion order, and the next
  fresh primary key (the source draws a random UUID for every new row).
\<close>

record ('g, 'p) database =
  user_roles :: "user_role list"
  branches :: "edit_branch list"
  feature_versions :: "('g, 'p) feature_version list"
  merge_requests :: "merge_request list"
  merge_conflicts :: "('g, 'p) merge_conflict list"
  audit_log :: "audit_entry list"
  next_id :: nat

section \<open>Conflict detection (services.py, ConflictDetector)\<close>

text \<open>
  \<open>FeatureVersion.objects.filter(branch=branch).order_by('feature_id', '-version')\<close>:
  the rows of the branch, sorted by feature identifier and then by descending version.
  The sort is stable, so rows that agree on both keys stay in insertion order.
\<close>

definition versions_of_branch ::
  "nat \<Rightarrow> ('g, 'p) database \<Rightarrow> ('g, 'p) feature_version list" where
  "versions_of_branch b db =
     sort_key (\<lambda>v. (feature_id v, - version v))
       (filter (\<lambda>v. branch v = b) (feature_versions db))"

text \<open>
  The loop of \<open>_get_latest_features\<close>: the dictionary \<open>features\<close> is an association list
  in insertion order, and a feature identifier is entered only when it is not yet a key.
\<close>

fun latest_loop ::
  "('g, 'p) feature_version list \<Rightarrow> (nat \<times> ('g, 'p) feature_version) list
     \<Rightarrow> (nat \<times> ('g, 'p) feature_version) list" where
  "latest_loop [] features = features"
| "latest_loop (v # vs) features =
     (if map_of features (feature_id v) = None
      then latest_loop vs (features @ [(feature_id v, v)])
      else latest_loop vs features)"

definition get_latest_features ::
  "nat \<Rightarrow> ('g, 'p) database \<Rightarrow> (nat \<times> ('g, 'p) feature_version) list" where
  "get_latest_features b db = latest_loop (versions_of_branch b db) []"

text \<open>
  The two delete checks at the end of \<open>_detect_conflict_type\<close>; control reaches them
  whenever no earlier \<open>return\<close> was taken.
\<close>

definition delete_checks ::
  "('g, 'p) feature_version \<Rightarrow> ('g, 'p) feature_version \<Rightarrow> conflict_type option" where
  "delete_checks sv tv =
     (if is_deleted sv \<and> version tv > 1 \<and> \<not> is_deleted tv then Some DELETE
      else if is_deleted tv \<and> version sv > 1 \<and> \<not> is_deleted sv then Some DELETE
      else None)"

definition detect_conflict_type ::
  "('g \<Rightarrow> 'g \<Rightarrow> bool) \<Rightarrow> ('g, 'p) feature_version \<Rightarrow> ('g, 'p) feature_version
     \<Rightarrow> conflict_type option" where
  "detect_conflict_type equals sv tv =
     (if version sv = 1 \<and> version tv = 1 then None
      else if version sv > 1 \<and> version tv > 1 then
        (let geom_conflict = \<not> equals (geometry sv) (geometry tv);
             prop_conflict = (properties sv \<noteq> properties tv)
         in if geom_conflict \<and> prop_conflict then Some BOTH
            else if geom_conflict then Some GEOMETRY
            else if prop_conflict then Some PROPERTIES
            else delete_checks sv tv)
      else delete_checks sv tv)"

text \<open>The dictionary appended to \<open>conflicts\<close> for one conflicting feature.\<close>

record ('g, 'p) conflict_data =
  cd_feature_id :: nat
  cd_conflict_type :: conflict_type
  cd_source_version :: "('g, 'p) feature_version"
  cd_target_version :: "('g, 'p) feature_version"

fun detect_loop ::
  "('g \<Rightarrow> 'g \<Rightarrow> bool) \<Rightarrow> (nat \<times> ('g, 'p) feature_version) list
     \<Rightarrow> (nat \<times> ('g, 'p) feature_version) list \<Rightarrow> ('g, 'p) conflict_data list
     \<Rightarrow> ('g, 'p) conflict_data list" where
  "detect_loop equals target_features [] conflicts = conflicts"
| "detect_loop equals target_features ((fid, sv) # rest) conflicts =
     (case map_of target_features fid of
        None \<Rightarrow> detect_loop equals target_features rest conflicts
      | Some tv \<Rightarrow>
          (case detect_conflict_type equals sv tv of
             None \<Rightarrow> detect_loop equals target_features rest conflicts
           | Some ct \<Rightarrow>
               detect_loop equals target_features rest
                 (conflicts @ [\<lparr>cd_feature_id = fid, cd_conflict_type = ct,
                                cd_source_version = sv, cd_target_version = tv\<rparr>])))"

definition detect_conflicts ::
  "('g \<Rightarrow> 'g \<Rightarrow> bool) \<Rightarrow> ('g, 'p) database \<Rightarrow> nat \<Rightarrow> nat
     \<Rightarrow> ('g, 'p) conflict_data list" where
  "detect_conflicts equals db source target =
     (let source_features = get_latest_features source db;
          target_features = get_latest_features target db
      in detect_loop equals target_features source_features [])"

text \<open>
  The rule table of the specification, section 4.3, read with "first match wins":
  rule 1 (both versions 1), rule 2 (both versions above 1: the content comparison
  decides, equal content is no conflict), rule 3 (one side deleted with version above 1,
  the other side not deleted with version above 1), rule 4 (no conflict).
\<close>

definition spec_rule_table ::
  "('g \<Rightarrow> 'g \<Rightarrow> bool) \<Rightarrow> ('g, 'p) feature_version \<Rightarrow> ('g, 'p) feature_version
     \<Rightarrow> conflict_type option" where
  "spec_rule_table equals sv tv =
     (if version sv = 1 \<and> version tv = 1 then None
      else if version sv > 1 \<and> version tv > 1 then
        (if \<not> equals (geometry sv) (geometry tv) \<and> properties sv \<noteq> properties tv
           then Some BOTH
         else if \<not> equals (geometry sv) (geometry tv) then Some GEOMETRY
         else if properties sv \<noteq> properties tv then Some PROPERTIES
         else None)
      else if (is_deleted sv \<and> version sv > 1 \<and> version tv > 1 \<and> \<not> is_deleted tv)
            \<or> (is_deleted tv \<and> version tv > 1 \<and> version sv > 1 \<and> \<not> is_deleted sv)
        then Some DELETE
      else None)"

text \<open>
  The conflict that \<open>detect_conflicts\<close> reports for one feature identifier, given the
  two dictionaries of latest versions; and the same report with the two roles exchanged.
\<close>

definition conflict_at ::
  "('g \<Rightarrow> 'g \<Rightarrow> bool) \<Rightarrow> (nat \<times> ('g, 'p) feature_version) list
     \<Rightarrow> (nat \<times> ('g, 'p) feature_version) list \<Rightarrow> nat \<Rightarrow> ('g, 'p) conflict_data option" where
  "conflict_at equals sf tf fid =
     (case map_of sf fid of
        None \<Rightarrow> None
      | Some sv \<Rightarrow>
          (case map_of tf fid of
             None \<Rightarrow> None
           | Some tv \<Rightarrow>
               (case detect_conflict_type equals sv tv of
                  None \<Rightarrow> None
                | Some ct \<Rightarrow> Some \<lparr>cd_feature_id = fid, cd_conflict_type = ct,
                                  cd_source_version = sv, cd_target_version = tv\<rparr>)))"

definition swap_roles :: "('g, 'p) conflict_data \<Rightarrow> ('g, 'p) conflict_data" where
  "swap_roles c = c\<lparr>cd_source_version := cd_target_version c,
                    cd_target_version := cd_source_version c\<rparr>"

section \<open>Merging (services.py, MergeService)\<close>

text \<open>
  The exceptions that the modelled code raises. \<open>DataError\<close> is the database's refusal
  of a value: \<open>FeatureVersion.version\<close> is an \<open>IntegerField\<close> (models.py, line 180), a
  32-bit column of the PostGIS engine that settings.py configures, so an insert with a
  version number outside the 32-bit range raises it.
\<close>

datatype py_exception = ValueError string | NameError string | DataError

definition in_integer_range :: "int \<Rightarrow> bool" where
  "in_integer_range n = (- 2147483648 \<le> n \<and> n \<le> 2147483647)"

text \<open>
  \<open>MergeService._get_latest_features\<close> has the same text as the detector's method and is
  modelled by \<open>get_latest_features\<close>.
\<close>

definition versions_equal ::
  "('g \<Rightarrow> 'g \<Rightarrow> bool) \<Rightarrow> ('g, 'p) feature_version \<Rightarrow> ('g, 'p) feature_version \<Rightarrow> bool" where
  "versions_equal equals version1 version2 =
     (equals (geometry version1) (geometry version2)
      \<and> properties version1 = properties version2)"

text \<open>
  \<open>FeatureVersion.objects.filter(branch=..., feature_id=...).order_by('-version').first()\<close>.
\<close>

definition latest_in_branch ::
  "nat \<Rightarrow> nat \<Rightarrow> ('g, 'p) database \<Rightarrow> ('g, 'p) feature_version option" where
  "latest_in_branch b fid db =
     (case sort_key (\<lambda>v. - version v)
             (filter (\<lambda>v. branch v = b \<and> feature_id v = fid) (feature_versions db)) of
        [] \<Rightarrow> None
      | v # _ \<Rightarrow> Some v)"

text \<open>
  \<open>source_version.branch.name\<close>: the foreign key guarantees that the branch row exists;
  on a state without it the model takes the empty name.
\<close>

definition branch_name :: "nat \<Rightarrow> ('g, 'p) database \<Rightarrow> string" where
  "branch_name b db =
     (case find (\<lambda>r. br_id r = b) (branches db) of None \<Rightarrow> [] | Some r \<Rightarrow> br_name r)"

text \<open>
  \<open>_create_merged_version\<close>; the created row is returned by the source and dropped by
  its caller, so the model returns the new state only. \<open>next_version\<close> is a Python
  integer without bound; \<open>FeatureVersion.objects.create\<close> raises when the column cannot
  hold it.
\<close>

definition create_merged_version ::
  "('g, 'p) feature_version \<Rightarrow> nat \<Rightarrow> ('g, 'p) database
     \<Rightarrow> py_exception + ('g, 'p) database" where
  "create_merged_version source_version target_branch db =
     (let latest_in_target = latest_in_branch target_branch (feature_id source_version) db;
          next_version = (case latest_in_target of Some l \<Rightarrow> version l + 1 | None \<Rightarrow> 1);
          merged_version =
            \<lparr>fv_id = next_id db, branch = target_branch,
             feature_id = feature_id source_version, version = next_version,
             geometry = geometry source_version, properties = properties source_version,
             operation = MERGE, is_deleted = False,
             created_by = created_by source_version,
             comment = Some (''Merged from branch '' @ branch_name (branch source_version) db)\<rparr>
      in if in_integer_range next_version
         then Inr (db\<lparr>feature_versions := feature_versions db @ [merged_version],
                     next_id := next_id db + 1\<rparr>)
         else Inl DataError)"

text \<open>
  The loop of \<open>merge_branches\<close> over \<open>source_features.items()\<close>; \<open>target_features\<close> is
  the dictionary read before the loop.
\<close>

fun merge_loop ::
  "('g \<Rightarrow> 'g \<Rightarrow> bool) \<Rightarrow> (nat \<times> ('g, 'p) feature_version) list \<Rightarrow> nat
     \<Rightarrow> (nat \<times> ('g, 'p) feature_version) list \<Rightarrow> ('g, 'p) database \<Rightarrow> nat
     \<Rightarrow> py_exception + ('g, 'p) database \<times> nat" where
  "merge_loop equals target_features target_branch [] db merged_count =
     Inr (db, merged_count)"
| "merge_loop equals target_features target_branch ((fid, sv) # rest) db merged_count =
     (if is_deleted sv
      then merge_loop equals target_features target_branch rest db merged_count
      else
        (case map_of target_features fid of
           Some tv \<Rightarrow>
             if version sv > version tv \<or> \<not> versions_equal equals sv tv
             then (case create_merged_version sv target_branch db of
                     Inl e \<Rightarrow> Inl e
                   | Inr db1 \<Rightarrow>
                       merge_loop equals target_features target_branch rest db1
                         (merged_count + 1))
             else merge_loop equals target_features target_branch rest db merged_count
         | None \<Rightarrow>
             (case create_merged_version sv target_branch db of
                Inl e \<Rightarrow> Inl e
              | Inr db1 \<Rightarrow>
                  merge_loop equals target_features target_branch rest db1
                    (merged_count + 1))))"

text \<open>
  \<open>merge_branches\<close> runs under \<open>transaction.atomic\<close>: when it raises, the rows it has
  written are rolled back, so the state after a raising call is the state before it and
  the result is the exception alone.
\<close>

definition merge_branches ::
  "('g \<Rightarrow> 'g \<Rightarrow> bool) \<Rightarrow> nat \<Rightarrow> nat \<Rightarrow> ('g, 'p) database
     \<Rightarrow> py_exception + ('g, 'p) database \<times> nat" where
  "merge_branches equals source target db =
     (let source_features = get_latest_features source db;
          target_features = get_latest_features target db
      in merge_loop equals target_features target source_features db 0)"

text \<open>
  Two consecutive calls of \<open>merge_branches\<close> on the same pair of branches with nothing
  in between: the two merged counts, or the exception of the call that raises.
\<close>

definition merge_twice ::
  "('g \<Rightarrow> 'g \<Rightarrow> bool) \<Rightarrow> nat \<Rightarrow> nat \<Rightarrow> ('g, 'p) database
     \<Rightarrow> py_exception + nat \<times> nat" where
  "merge_twice equals source target db =
     (case merge_branches equals source target db of
        Inl e \<Rightarrow> Inl e
      | Inr (db1, count1) \<Rightarrow>
          (case merge_branches equals source target db1 of
             Inl e \<Rightarrow> Inl e
           | Inr (db2, count2) \<Rightarrow> Inr (count1, count2)))"

text \<open>
  Whether the loop of \<open>merge_branches\<close> writes a version for one entry of
  \<open>source_features\<close>.
\<close>

definition needs_merge ::
  "('g \<Rightarrow> 'g \<Rightarrow> bool) \<Rightarrow> (nat \<times> ('g, 'p) feature_version) list
     \<Rightarrow> nat \<times> ('g, 'p) feature_version \<Rightarrow> bool" where
  "needs_merge equals target_features item =
     (\<not> is_deleted (snd item) \<and>
      (case map_of target_features (fst item) of
         None \<Rightarrow> True
       | Some tv \<Rightarrow> version (snd item) > version tv \<or> \<not> versions_equal equals (snd item) tv))"

text \<open>
  The version number of the latest version of a feature in a branch, 0 when the branch
  has no version of the feature.
\<close>

definition head_version :: "nat \<Rightarrow> nat \<Rightarrow> ('g, 'p) database \<Rightarrow> int" where
  "head_version b fid db =
     (case map_of (get_latest_features b db) fid of None \<Rightarrow> 0 | Some v \<Rightarrow> version v)"

section \<open>Conflict resolution (services.py, ConflictResolver)\<close>

text \<open>
  The names bound at module level when \<open>services.py\<close> has been loaded: its imports
  (lines 5 to 8), \<open>logger\<close> and its three classes. A global name that is neither in this
  list nor a Python builtin raises \<open>NameError\<close> where it is evaluated.
\<close>

definition services_globals :: "string list" where
  "services_globals =
     [''transaction'', ''GEOSGeometry'', ''EditBranch'', ''FeatureVersion'',
      ''MergeConflict'', ''logging'', ''logger'', ''ConflictDetector'', ''MergeService'',
      ''ConflictResolver'']"

text \<open>\<open>conflict.save()\<close>: the row with the conflict's primary key is overwritten.\<close>

definition save_conflict ::
  "('g, 'p) merge_conflict \<Rightarrow> ('g, 'p) database \<Rightarrow> ('g, 'p) database" where
  "save_conflict c db =
     db\<lparr>merge_conflicts := map (\<lambda>r. if mc_id r = mc_id c then c else r) (merge_conflicts db)\<rparr>"

text \<open>
  \<open>resolve_conflict\<close> runs under \<open>transaction.atomic\<close>: when it raises, the state is the
  one before the call. \<open>empty_dict\<close> is the properties document \<open>{}\<close> and \<open>now\<close> the value
  of \<open>timezone.now()\<close>. The assignments to the in-memory \<open>conflict\<close> object up to the
  exception are not part of the result.
\<close>

definition resolve_conflict ::
  "'p \<Rightarrow> nat \<Rightarrow> ('g, 'p) merge_conflict \<Rightarrow> string \<Rightarrow> nat \<Rightarrow> 'g option \<Rightarrow> 'p option
     \<Rightarrow> ('g, 'p) database \<Rightarrow> (py_exception + ('g, 'p) merge_conflict) \<times> ('g, 'p) database" where
  "resolve_conflict empty_dict now conflict resolution_strategy resolved_by
       manual_geometry manual_properties db =
     (let assigned =
        (if resolution_strategy = ''SOURCE'' then
           Inr (conflict\<lparr>mc_resolved_geometry := Some (geometry (mc_source_version conflict)),
                          mc_resolved_properties :=
                            Some (properties (mc_source_version conflict))\<rparr>)
         else if resolution_strategy = ''TARGET'' then
           Inr (conflict\<lparr>mc_resolved_geometry :=
                            (case mc_target_version conflict of
                               Some tv \<Rightarrow> Some (geometry tv) | None \<Rightarrow> None),
                          mc_resolved_properties :=
                            (case mc_target_version conflict of
                               Some tv \<Rightarrow> Some (properties tv) | None \<Rightarrow> Some empty_dict)\<rparr>)
         else if resolution_strategy = ''MANUAL'' then
           (if manual_geometry = None \<or> manual_properties = None
            then Inl (ValueError ''Manual resolution requires geometry and properties'')
            else Inr (conflict\<lparr>mc_resolved_geometry := manual_geometry,
                               mc_resolved_properties := manual_properties\<rparr>))
         else Inl (ValueError (''Invalid resolution strategy: '' @ resolution_strategy)))
      in case assigned of
           Inl e \<Rightarrow> (Inl e, db)
         | Inr c \<Rightarrow>
             (let c1 = c\<lparr>mc_resolution_strategy := Some resolution_strategy,
                          mc_resolved := True, mc_resolved_by := Some resolved_by\<rparr>
              in if ''timezone'' \<in> set services_globals
                 then (let c2 = c1\<lparr>mc_resolved_at := Some now\<rparr>
                       in (Inr c2, save_conflict c2 db))
                 else (Inl (NameError ''timezone''), db)))"

section \<open>The REST views (api\_views.py)\<close>

datatype http_status =
  HTTP_200_OK | HTTP_400_BAD_REQUEST | HTTP_403_FORBIDDEN | HTTP_404_NOT_FOUND
  | HTTP_500_INTERNAL_SERVER_ERROR

text \<open>
  The body of a response: \<open>{'error': text}\<close>, \<open>{'message': text}\<close>, and
  \<open>{'error': text + str(e)}\<close> for an exception \<open>e\<close>.
\<close>

datatype payload = Error string | Message string | Failure string py_exception

datatype response = Response (status_code: http_status) (body: payload)

text \<open>The decimal digits of a number, for the f-string of \<open>approve\<close>.\<close>

fun str_nat :: "nat \<Rightarrow> string" where
  "str_nat n =
     (if n < 10 then [''0123456789'' ! n]
      else str_nat (n div 10) @ [''0123456789'' ! (n mod 10)])"

declare str_nat.simps [simp del]

text \<open>
  \<open>AuditLog.objects.create\<close>; the \<open>details\<close> dictionary is not modelled.
\<close>

definition create_audit_log ::
  "nat \<Rightarrow> string \<Rightarrow> string \<Rightarrow> nat \<Rightarrow> ('g, 'p) database \<Rightarrow> ('g, 'p) database" where
  "create_audit_log u action entity_type entity_id db =
     db\<lparr>audit_log := audit_log db @
            [\<lparr>al_user = u, al_action = action, al_entity_type = entity_type,
              al_entity_id = entity_id\<rparr>],
        next_id := next_id db + 1\<rparr>"

text \<open>
  \<open>get_object()\<close> of a view set, without query parameters: the row with the primary key
  of the URL; the framework answers 404 when there is none.
\<close>

definition get_branch :: "nat \<Rightarrow> ('g, 'p) database \<Rightarrow> edit_branch option" where
  "get_branch pk db = find (\<lambda>r. br_id r = pk) (branches db)"

definition get_merge_request :: "nat \<Rightarrow> ('g, 'p) database \<Rightarrow> merge_request option" where
  "get_merge_request pk db = find (\<lambda>r. mr_id r = pk) (merge_requests db)"

definition not_found :: response where
  "not_found = Response HTTP_404_NOT_FOUND (Error ''Not found.'')"

text \<open>\<open>save()\<close> of a branch and of a merge request: the row with that primary key.\<close>

definition save_branch :: "edit_branch \<Rightarrow> ('g, 'p) database \<Rightarrow> ('g, 'p) database" where
  "save_branch b db =
     db\<lparr>branches := map (\<lambda>r. if br_id r = br_id b then b else r) (branches db)\<rparr>"

definition save_merge_request ::
  "merge_request \<Rightarrow> ('g, 'p) database \<Rightarrow> ('g, 'p) database" where
  "save_merge_request m db =
     db\<lparr>merge_requests := map (\<lambda>r. if mr_id r = mr_id m then m else r) (merge_requests db)\<rparr>"

subsection \<open>EditBranchViewSet\<close>

definition is_master :: "edit_branch \<Rightarrow> bool" where
  "is_master b = (parent_branch b = None \<and> br_name b = ''master'')"

definition branch_soft_delete ::
  "user \<Rightarrow> nat \<Rightarrow> ('g, 'p) database \<Rightarrow> response \<times> ('g, 'p) database" where
  "branch_soft_delete request_user pk db =
     (case get_branch pk db of
        None \<Rightarrow> (not_found, db)
      | Some b \<Rightarrow>
          if br_created_by b \<noteq> user_id request_user \<and> \<not> is_superuser request_user
          then (Response HTTP_403_FORBIDDEN
                  (Error ''You do not have permission to delete this branch''), db)
          else if is_master b
          then (Response HTTP_400_BAD_REQUEST (Error ''Cannot delete master branch''), db)
          else
            (let db1 = save_branch (b\<lparr>br_status := Deleted\<rparr>) db;
                 db2 = create_audit_log (user_id request_user) ''DELETE_BRANCH'' ''branch''
                         (br_id b) db1
             in (Response HTTP_200_OK (Message ''Branch deleted successfully''), db2)))"

subsection \<open>FeatureVersionViewSet\<close>

text \<open>
  The queryset leaves deleted versions out unless the request says
  \<open>include_deleted=true\<close>.
\<close>

definition get_feature_version ::
  "bool \<Rightarrow> nat \<Rightarrow> ('g, 'p) database \<Rightarrow> ('g, 'p) feature_version option" where
  "get_feature_version include_deleted pk db =
     find (\<lambda>v. fv_id v = pk)
       (if include_deleted then feature_versions db
        else filter (\<lambda>v. \<not> is_deleted v) (feature_versions db))"

text \<open>
  The validated request data of \<open>perform_create\<close>: the writable fields of the serializer
  that \<open>save\<close> does not override. \<open>uuid.uuid4()\<close> and the default of the primary key are
  two fresh identifiers.
\<close>

record ('g, 'p) feature_data =
  fd_branch :: nat
  fd_geometry :: 'g
  fd_properties :: 'p
  fd_is_deleted :: bool
  fd_comment :: "string option"

definition feature_perform_create ::
  "user \<Rightarrow> ('g, 'p) feature_data \<Rightarrow> ('g, 'p) database \<Rightarrow> ('g, 'p) database" where
  "feature_perform_create request_user validated db =
     (let feature =
            \<lparr>fv_id = next_id db + 1, branch = fd_branch validated, feature_id = next_id db,
             version = 1, geometry = fd_geometry validated,
             properties = fd_properties validated, operation = CREATE,
             is_deleted = fd_is_deleted validated, created_by = user_id request_user,
             comment = fd_comment validated\<rparr>;
          db1 = db\<lparr>feature_versions := feature_versions db @ [feature],
                   next_id := next_id db + 2\<rparr>
      in create_audit_log (user_id request_user) ''CREATE_FEATURE'' ''feature''
           (fv_id feature) db1)"

text \<open>
  \<open>soft_delete\<close> of a feature has no handler around its insert: when the database
  refuses the version number, \<open>DataError\<close> leaves the view and nothing is written.
\<close>

definition feature_soft_delete ::
  "user \<Rightarrow> bool \<Rightarrow> nat \<Rightarrow> ('g, 'p) database
     \<Rightarrow> (py_exception + response) \<times> ('g, 'p) database" where
  "feature_soft_delete request_user include_deleted pk db =
     (case get_feature_version include_deleted pk db of
        None \<Rightarrow> (Inr not_found, db)
      | Some feature \<Rightarrow>
          if \<not> in_integer_range (version feature + 1) then (Inl DataError, db)
          else
          (let delete_version =
                 \<lparr>fv_id = next_id db, branch = branch feature,
                  feature_id = feature_id feature, version = version feature + 1,
                  geometry = geometry feature, properties = properties feature,
                  operation = DELETE_OP, is_deleted = True,
                  created_by = user_id request_user, comment = None\<rparr>;
               db1 = db\<lparr>feature_versions := feature_versions db @ [delete_version],
                        next_id := next_id db + 1\<rparr>;
               db2 = create_audit_log (user_id request_user) ''DELETE_FEATURE'' ''feature''
                       (fv_id delete_version) db1
           in (Inr (Response HTTP_200_OK (Message ''Feature deleted successfully'')),
               db2)))"

subsection \<open>MergeRequestViewSet\<close>

text \<open>\<open>_can_approve\<close>; \<open>hasattr\<close> fails when the user has no profile role.\<close>

definition can_approve :: "user \<Rightarrow> bool" where
  "can_approve u =
     (is_superuser u \<or>
      (case profile_role u of
         None \<Rightarrow> False
       | Some r \<Rightarrow> r \<in> set [''validator'', ''admin'']))"

text \<open>
  \<open>approve\<close>. Inside the \<open>try\<close> block \<open>merge_branches\<close> is the operation that can
  raise; the \<open>except\<close> branch then answers 500, and the state is the one before the call.
\<close>

definition approve ::
  "('g \<Rightarrow> 'g \<Rightarrow> bool) \<Rightarrow> nat \<Rightarrow> user \<Rightarrow> nat \<Rightarrow> ('g, 'p) database
     \<Rightarrow> response \<times> ('g, 'p) database" where
  "approve equals now request_user pk db =
     (case get_merge_request pk db of
        None \<Rightarrow> (not_found, db)
      | Some merge_request \<Rightarrow>
          if \<not> can_approve request_user
          then (Response HTTP_403_FORBIDDEN
                  (Error ''You do not have permission to approve merge requests''), db)
          else
            (let unresolved_conflicts =
                   length (filter (\<lambda>c. mc_merge_request c = mr_id merge_request
                                        \<and> mc_resolved c = False) (merge_conflicts db))
             in if unresolved_conflicts > 0
                then (Response HTTP_400_BAD_REQUEST
                        (Error (''Cannot merge: '' @ str_nat unresolved_conflicts
                                @ '' unresolved conflicts'')), db)
                else
                  (case merge_branches equals (mr_source_branch merge_request)
                          (mr_target_branch merge_request) db of
                     Inl e \<Rightarrow>
                       (Response HTTP_500_INTERNAL_SERVER_ERROR
                          (Failure ''Merge failed: '' e), db)
                   | Inr (db1, merged_count) \<Rightarrow>
                       (let db2 = save_merge_request
                                    (merge_request\<lparr>mr_status := MR_merged,
                                       reviewed_by := Some (user_id request_user),
                                       reviewed_at := Some now\<rparr>) db1;
                            db3 = (case get_branch (mr_source_branch merge_request) db2 of
                                     None \<Rightarrow> db2
                                   | Some b \<Rightarrow>
                                       save_branch (b\<lparr>br_status := Merged,
                                                       merged_at := Some now\<rparr>) db2);
                            db4 = create_audit_log (user_id request_user)
                                    ''APPROVE_MERGE_REQUEST'' ''merge_request''
                                    (mr_id merge_request) db3
                        in (Response HTTP_200_OK
                              (Message ''Merge request approved and merged successfully''),
                            db4)))))"

definition reject ::
  "nat \<Rightarrow> user \<Rightarrow> string \<Rightarrow> nat \<Rightarrow> ('g, 'p) database \<Rightarrow> response \<times> ('g, 'p) database" where
  "reject now request_user request_comment pk db =
     (case get_merge_request pk db of
        None \<Rightarrow> (not_found, db)
      | Some merge_request \<Rightarrow>
          if \<not> can_approve request_user
          then (Response HTTP_403_FORBIDDEN
                  (Error ''You do not have permission to reject merge requests''), db)
          else
            (let db1 = save_merge_request
                         (merge_request\<lparr>mr_status := MR_rejected,
                            reviewed_by := Some (user_id request_user),
                            reviewed_at := Some now,
                            review_comment := Some request_comment\<rparr>) db;
                 db2 = create_audit_log (user_id request_user)
                         ''REJECT_MERGE_REQUEST'' ''merge_request''
                         (mr_id merge_request) db1
             in (Response HTTP_200_OK (Message ''Merge request rejected''), db2)))"

section \<open>Permissions (models.py, permissions.py)\<close>

text \<open>\<open>UserRole.objects.filter(...).exists()\<close> is \<open>list_ex\<close> over the table.\<close>

definition branch_group :: "nat \<Rightarrow> ('g, 'p) database \<Rightarrow> nat option" where
  "branch_group b db = (case get_branch b db of None \<Rightarrow> None | Some r \<Rightarrow> br_group r)"

definition can_user_approve :: "merge_request \<Rightarrow> user \<Rightarrow> ('g, 'p) database \<Rightarrow> bool" where
  "can_user_approve m u db =
     (if is_superuser u then True
      else
        (case branch_group (mr_target_branch m) db of
           Some g \<Rightarrow>
             list_ex (\<lambda>r. ur_user r = user_id u \<and> ur_group r = g
                           \<and> ur_role r \<in> set [''validator'', ''admin'']
                           \<and> can_approve_merges r = True) (user_roles db)
         | None \<Rightarrow> False))"

definition is_admin :: "user \<Rightarrow> ('g, 'p) database \<Rightarrow> bool" where
  "is_admin u db =
     (if is_superuser u then True
      else list_ex (\<lambda>r. ur_user r = user_id u \<and> ur_role r = ''admin'') (user_roles db))"

definition can_delete_branch :: "user \<Rightarrow> edit_branch \<Rightarrow> ('g, 'p) database \<Rightarrow> bool" where
  "can_delete_branch u b db =
     (if is_master b then False
      else if is_admin u db then True
      else if br_created_by b = user_id u then
        (case br_group b of
           Some g \<Rightarrow>
             list_ex (\<lambda>r. ur_user r = user_id u \<and> ur_group r = g
                           \<and> can_manage_branches r = True) (user_roles db)
         | None \<Rightarrow> True)
      else False)"

definition can_approve_merge_request ::
  "user \<Rightarrow> merge_request \<Rightarrow> ('g, 'p) database \<Rightarrow> bool" where
  "can_approve_merge_request u m db =
     (if is_admin u db then True
      else
        (case branch_group (mr_target_branch m) db of
           Some g \<Rightarrow>
             list_ex (\<lambda>r. ur_user r = user_id u \<and> ur_group r = g
                           \<and> ur_role r \<in> set [''validator'', ''admin'']
                           \<and> can_approve_merges r = True) (user_roles db)
         | None \<Rightarrow> False))"

section \<open>Example states\<close>

text \<open>
  Geometries and properties are numbered, and two geometries are equal when their numbers
  are. Layer 1 has the master branch 1 and the branch 2 derived from it, both in group 5.
\<close>

definition ex_version ::
  "nat \<Rightarrow> nat \<Rightarrow> nat \<Rightarrow> int \<Rightarrow> nat \<Rightarrow> nat \<Rightarrow> operation \<Rightarrow> bool
     \<Rightarrow> (nat, nat) feature_version" where
  "ex_version i b f n g p oper d =
     \<lparr>fv_id = i, branch = b, feature_id = f, version = n, geometry = g, properties = p,
      operation = oper, is_deleted = d, created_by = 1, comment = None\<rparr>"

definition ex_master :: edit_branch where
  "ex_master = \<lparr>br_id = 1, br_name = ''master'', br_layer = 1, br_group = Some 5,
     parent_branch = None, br_created_by = 1, br_status = Active, merged_at = None\<rparr>"

definition ex_edits :: edit_branch where
  "ex_edits = \<lparr>br_id = 2, br_name = ''edits'', br_layer = 1, br_group = Some 5,
     parent_branch = Some 1, br_created_by = 2, br_status = Active, merged_at = None\<rparr>"

definition ex_database :: "(nat, nat) feature_version list \<Rightarrow> (nat, nat) database" where
  "ex_database rows =
     \<lparr>user_roles = [], branches = [ex_master, ex_edits], feature_versions = rows,
      merge_requests = [], merge_conflicts = [], audit_log = [], next_id = 100\<rparr>"

text \<open>
  Feature 7 was deleted in branch 2 (version 2, the content of version 1) and rewritten
  with unchanged content in branch 1 (version 2).
\<close>

definition ex_deleted_source :: "(nat, nat) feature_version" where
  "ex_deleted_source = ex_version 12 2 7 2 0 0 DELETE_OP True"

definition ex_kept_target :: "(nat, nat) feature_version" where
  "ex_kept_target = ex_version 13 1 7 2 0 0 UPDATE False"

text \<open>
  Feature 7 was created alike in both branches, then its properties were changed in
  branch 1 and its geometry in branch 2.
\<close>

definition ex_diverged :: "(nat, nat) database" where
  "ex_diverged = ex_database
     [ex_version 10 1 7 1 0 0 CREATE False, ex_version 11 2 7 1 0 0 CREATE False,
      ex_version 12 1 7 2 0 1 UPDATE False, ex_version 13 2 7 2 1 0 UPDATE False]"

text \<open>
  Feature 7 was created in branch 2 and edited there once; branch 1 has no version of it.
\<close>

definition ex_unmerged :: "(nat, nat) database" where
  "ex_unmerged = ex_database
     [ex_version 10 2 7 1 0 0 CREATE False, ex_version 11 2 7 2 1 0 UPDATE False]"

text \<open>
  Two users: a superuser, and the editor who created branch 2.
\<close>

definition ex_superuser :: user where
  "ex_superuser = \<lparr>user_id = 1, is_superuser = True, profile_role = None\<rparr>"

definition ex_editor :: user where
  "ex_editor = \<lparr>user_id = 2, is_superuser = False, profile_role = None\<rparr>"

text \<open>
  A merge request from branch 2 into branch 1 in a given status, and an unresolved
  conflict bound to it.
\<close>

definition ex_request :: "mr_status \<Rightarrow> merge_request" where
  "ex_request st = \<lparr>mr_id = 50, mr_source_branch = 2, mr_target_branch = 1, mr_status = st,
     mr_created_by = 2, reviewed_by = None, review_comment = None, reviewed_at = None\<rparr>"

definition ex_with_request :: "mr_status \<Rightarrow> (nat, nat) database" where
  "ex_with_request st = ex_unmerged\<lparr>merge_requests := [ex_request st]\<rparr>"

definition ex_conflict :: "(nat, nat) merge_conflict" where
  "ex_conflict = \<lparr>mc_id = 60, mc_merge_request = 50, mc_feature_id = 7, mc_conflict_type = BOTH,
     mc_source_version = ex_version 13 2 7 2 1 0 UPDATE False,
     mc_target_version = Some (ex_version 12 1 7 2 0 1 UPDATE False),
     mc_resolved = False, mc_resolution_strategy = None, mc_resolved_geometry = None,
     mc_resolved_properties = None, mc_resolved_by = None, mc_resolved_at = None\<rparr>"

definition ex_with_conflict :: "(nat, nat) database" where
  "ex_with_conflict = ex_diverged\<lparr>merge_requests := [ex_request MR_conflicts],
     merge_conflicts := [ex_conflict]\<rparr>"

text \<open>
  The latest version of feature 7 in branch 1 has the greatest version number that the
  column holds, and branch 2 has a version of the feature with another geometry; a merge
  request from branch 2 into branch 1 is pending.
\<close>

definition ex_at_limit :: "(nat, nat) database" where
  "ex_at_limit = (ex_database
     [ex_version 10 1 7 2147483647 0 0 UPDATE False, ex_version 11 2 7 2 1 0 UPDATE False])
     \<lparr>merge_requests := [ex_request MR_pending]\<rparr>"

text \<open>
  A feature is created in branch 2 by the editor, and the row of its version 1 is then
  soft-deleted twice.
\<close>

definition ex_deleted_twice :: "(nat, nat) database" where
  "ex_deleted_twice =
     snd (feature_soft_delete ex_editor False 101
       (snd (feature_soft_delete ex_editor False 101
         (feature_perform_create ex_editor
            \<lparr>fd_branch = 2, fd_geometry = 0, fd_properties = 0, fd_is_deleted = False,
             fd_comment = None\<rparr> (ex_database [])))))"

section \<open>Properties of the conflict detector\<close>

subsection \<open>Classification of a pair of latest versions\<close>

text \<open>
  C1 (as stated, refuted). The claim gives "no conflict" to two versions above 1 with
  equal geometry and equal properties. The source falls through to its delete checks
  there: a deleted version 2 against a kept version 2 of the same content is a DELETE
  conflict, where the rule table of the specification gives none.
\<close>

theorem detect_conflict_type_equal_content_delete:
  "version ex_deleted_source = 2 \<and> version ex_kept_target = 2
   \<and> geometry ex_deleted_source = geometry ex_kept_target
   \<and> properties ex_deleted_source = properties ex_kept_target
   \<and> spec_rule_table (=) ex_deleted_source ex_kept_target = None
   \<and> detect_conflict_type (=) ex_deleted_source ex_kept_target = Some DELETE"
  by (simp add: ex_deleted_source_def ex_kept_target_def ex_version_def spec_rule_table_def
        detect_conflict_type_def delete_checks_def)

text \<open>
  C1 (amended). The result of \<open>_detect_conflict_type\<close> is BOTH, GEOMETRY or PROPERTIES
  exactly when both versions are above 1 and the geometry, the properties or both
  differ; it is DELETE exactly when no such content conflict was found (the versions are
  not both above 1, or the content is equal) and either the source is deleted while the
  target is above version 1 and not deleted, or the target is deleted while the source is
  above version 1 and not deleted; in every other case it is no conflict.
\<close>

theorem detect_conflict_type_characterisation:
  "(detect_conflict_type equals sv tv = Some BOTH \<longleftrightarrow>
      1 < version sv \<and> 1 < version tv \<and> \<not> equals (geometry sv) (geometry tv)
      \<and> properties sv \<noteq> properties tv)
   \<and> (detect_conflict_type equals sv tv = Some GEOMETRY \<longleftrightarrow>
      1 < version sv \<and> 1 < version tv \<and> \<not> equals (geometry sv) (geometry tv)
      \<and> properties sv = properties tv)
   \<and> (detect_conflict_type equals sv tv = Some PROPERTIES \<longleftrightarrow>
      1 < version sv \<and> 1 < version tv \<and> equals (geometry sv) (geometry tv)
      \<and> properties sv \<noteq> properties tv)
   \<and> (detect_conflict_type equals sv tv = Some DELETE \<longleftrightarrow>
      (1 < version sv \<and> 1 < version tv \<longrightarrow>
         equals (geometry sv) (geometry tv) \<and> properties sv = properties tv)
      \<and> (is_deleted sv \<and> 1 < version tv \<and> \<not> is_deleted tv
          \<or> is_deleted tv \<and> 1 < version sv \<and> \<not> is_deleted sv))"
  by (auto simp add: detect_conflict_type_def delete_checks_def Let_def)

theorem detect_conflict_type_characterisation_witness:
  "1 < version ex_deleted_source \<and> 1 < version ex_kept_target
   \<and> geometry ex_deleted_source = geometry ex_kept_target
   \<and> properties ex_deleted_source = properties ex_kept_target
   \<and> is_deleted ex_deleted_source \<and> \<not> is_deleted ex_kept_target
   \<and> detect_conflict_type (=) ex_deleted_source ex_kept_target = Some DELETE"
  using detect_conflict_type_characterisation [of "(=)" ex_deleted_source ex_kept_target]
  by (simp add: ex_deleted_source_def ex_kept_target_def ex_version_def)

subsection \<open>The detector with source and target exchanged\<close>

lemma latest_loop_map_of:
  "map_of (latest_loop vs acc) f =
     (case map_of acc f of Some v \<Rightarrow> Some v
      | None \<Rightarrow> find (\<lambda>v. feature_id v = f) vs)"
  by (induction vs arbitrary: acc) (auto split: option.splits)

lemma latest_loop_keys_set:
  "fst ` set (latest_loop vs acc) = fst ` set acc \<union> feature_id ` set vs"
  by (induction vs arbitrary: acc) (auto simp: map_of_eq_None_iff image_iff)

lemma sorted_append_drop_mid:
  "sorted (xs @ y # ys) \<Longrightarrow> sorted (xs @ (ys :: nat list))"
  by (auto simp: sorted_append)

lemma latest_loop_keys_sorted:
  "sorted (map fst acc @ map feature_id vs) \<Longrightarrow> distinct (map fst acc)
     \<Longrightarrow> sorted (map fst (latest_loop vs acc)) \<and> distinct (map fst (latest_loop vs acc))"
proof (induction vs arbitrary: acc)
  case Nil
  then show ?case by simp
next
  case (Cons v vs)
  show ?case
  proof (cases "map_of acc (feature_id v) = None")
    case True
    then have "feature_id v \<notin> fst ` set acc" by (simp add: map_of_eq_None_iff)
    with Cons.prems have "sorted (map fst (acc @ [(feature_id v, v)]) @ map feature_id vs)"
      and "distinct (map fst (acc @ [(feature_id v, v)]))" by auto
    from Cons.IH[OF this] True show ?thesis by simp
  next
    case False
    from Cons.prems(1) have "sorted (map fst acc @ map feature_id vs)"
      using sorted_append_drop_mid[of "map fst acc" "feature_id v" "map feature_id vs"] by simp
    from Cons.IH[OF this Cons.prems(2)] False show ?thesis by auto
  qed
qed

lemma versions_of_branch_sorted: "sorted (map feature_id (versions_of_branch b db))"
proof -
  let ?k = "\<lambda>v::('a, 'b) feature_version. (feature_id v, - version v)"
  let ?xs = "filter (\<lambda>v. branch v = b) (feature_versions db)"
  have "sorted (map ?k (sort_key ?k ?xs))" by (rule sorted_sort_key)
  then have "sorted_wrt (\<lambda>x y. ?k x \<le> ?k y) (sort_key ?k ?xs)" by (simp add: sorted_map)
  then have "sorted_wrt (\<lambda>x y. feature_id x \<le> feature_id y) (sort_key ?k ?xs)"
    by (rule sorted_wrt_mono_rel[rotated]) (auto simp: less_eq_prod_def)
  then show ?thesis by (simp add: versions_of_branch_def sorted_map)
qed

lemma latest_keys_sorted:
  "sorted (map fst (get_latest_features b db))"
  "distinct (map fst (get_latest_features b db))"
  using latest_loop_keys_sorted[of "[]" "versions_of_branch b db"] versions_of_branch_sorted[of b db]
  by (simp_all add: get_latest_features_def)

lemma detect_loop_map_filter:
  "distinct (map fst items) \<Longrightarrow> set items \<subseteq> set sf \<Longrightarrow> distinct (map fst sf) \<Longrightarrow>
   detect_loop equals tf items acc
     = acc @ List.map_filter (conflict_at equals sf tf) (map fst items)"
proof (induction items arbitrary: acc)
  case Nil
  then show ?case by simp
next
  case (Cons a items)
  obtain f sv where a: "a = (f, sv)" by (cases a)
  with Cons.prems have "map_of sf f = Some sv" by simp
  then have hd: "conflict_at equals sf tf f =
     (case map_of tf f of
        None \<Rightarrow> None
      | Some tv \<Rightarrow>
          (case detect_conflict_type equals sv tv of
             None \<Rightarrow> None
           | Some ct \<Rightarrow> Some \<lparr>cd_feature_id = f, cd_conflict_type = ct,
                             cd_source_version = sv, cd_target_version = tv\<rparr>))"
    by (simp add: conflict_at_def)
  from Cons have IH: "\<And>acc. detect_loop equals tf items acc
     = acc @ List.map_filter (conflict_at equals sf tf) (map fst items)" by simp
  show ?case
    by (simp add: a IH hd split: option.splits)
qed

lemma conflict_at_swap:
  assumes "\<forall>x y. equals x y = equals y x"
  shows "conflict_at equals tf sf f = map_option swap_roles (conflict_at equals sf tf f)"
proof -
  have sym: "\<And>sv tv. detect_conflict_type equals tv sv = detect_conflict_type equals sv tv"
    using assms by (auto simp add: detect_conflict_type_def delete_checks_def Let_def)
  show ?thesis
    by (auto simp: conflict_at_def swap_roles_def sym split: option.splits)
qed

lemma map_filter_restrict:
  "(\<And>x. x \<in> set xs \<Longrightarrow> \<not> P x \<Longrightarrow> g x = None) \<Longrightarrow>
    List.map_filter g xs = List.map_filter g (filter P xs)"
  by (induction xs) (auto split: option.splits)

lemma common_keys:
  assumes "sorted xs" "distinct xs" "sorted ys" "distinct (ys :: nat list)"
  shows "filter (\<lambda>x. x \<in> set ys) xs = filter (\<lambda>y. y \<in> set xs) ys"
  using assms
  by (intro sorted_distinct_set_unique) (auto simp: sorted_filter[where f="\<lambda>x. x", simplified])

lemma map_filter_map_option:
  "List.map_filter (\<lambda>x. map_option h (g x)) xs = map h (List.map_filter g xs)"
  by (induction xs) (auto split: option.splits)

text \<open>
  C10. On one persisted state, \<open>detect(B, A)\<close> is \<open>detect(A, B)\<close> with the source and
  target versions of every reported conflict exchanged: the same feature identifiers in
  the same order with the same conflict types. The geometry predicate of the GEOS
  library is taken to be symmetric.
\<close>

theorem detect_conflicts_roles_swapped:
  assumes "\<forall>x y. equals x y = equals y x"
  shows "detect_conflicts equals db b a = map swap_roles (detect_conflicts equals db a b)"
proof -
  let ?A = "get_latest_features a db" and ?B = "get_latest_features b db"
  let ?ka = "map fst ?A" and ?kb = "map fst ?B"
  have ab: "detect_conflicts equals db a b = List.map_filter (conflict_at equals ?A ?B) ?ka"
    using detect_loop_map_filter[of ?A ?A equals ?B "[]"] latest_keys_sorted(2)[of a db]
    by (simp add: detect_conflicts_def)
  have ba: "detect_conflicts equals db b a = List.map_filter (conflict_at equals ?B ?A) ?kb"
    using detect_loop_map_filter[of ?B ?B equals ?A "[]"] latest_keys_sorted(2)[of b db]
    by (simp add: detect_conflicts_def)
  have ra: "List.map_filter (conflict_at equals ?A ?B) ?ka
      = List.map_filter (conflict_at equals ?A ?B) (filter (\<lambda>x. x \<in> set ?kb) ?ka)"
    by (rule map_filter_restrict)
       (auto simp: conflict_at_def map_of_eq_None_iff[symmetric] split: option.splits)
  have rb: "List.map_filter (conflict_at equals ?B ?A) ?kb
      = List.map_filter (conflict_at equals ?B ?A) (filter (\<lambda>x. x \<in> set ?ka) ?kb)"
    by (rule map_filter_restrict)
       (auto simp: conflict_at_def map_of_eq_None_iff[symmetric] split: option.splits)
  have ck: "filter (\<lambda>x. x \<in> set ?kb) ?ka = filter (\<lambda>x. x \<in> set ?ka) ?kb"
    by (rule common_keys) (rule latest_keys_sorted)+
  have sw: "conflict_at equals ?B ?A
      = (\<lambda>f. map_option swap_roles (conflict_at equals ?A ?B f))"
    by (rule ext) (rule conflict_at_swap[OF assms])
  have "detect_conflicts equals db b a
      = List.map_filter (conflict_at equals ?B ?A) (filter (\<lambda>x. x \<in> set ?ka) ?kb)"
    using ba rb by (rule trans)
  also have "\<dots> = List.map_filter (conflict_at equals ?B ?A) (filter (\<lambda>x. x \<in> set ?kb) ?ka)"
    by (simp only: ck)
  also have "\<dots> = List.map_filter (\<lambda>f. map_option swap_roles (conflict_at equals ?A ?B f))
          (filter (\<lambda>x. x \<in> set ?kb) ?ka)"
    by (simp only: sw)
  also have "\<dots> = map swap_roles (detect_conflicts equals db a b)"
    by (simp only: map_filter_map_option ab ra[symmetric])
  finally show ?thesis .
qed

theorem detect_conflicts_roles_swapped_witness:
  "(\<forall>x y :: nat. (x = y) = (y = x))
   \<and> detect_conflicts (=) ex_diverged 2 1 =
       [\<lparr>cd_feature_id = 7, cd_conflict_type = BOTH,
         cd_source_version = ex_version 13 2 7 2 1 0 UPDATE False,
         cd_target_version = ex_version 12 1 7 2 0 1 UPDATE False\<rparr>]
   \<and> detect_conflicts (=) ex_diverged 1 2 =
       map swap_roles (detect_conflicts (=) ex_diverged 2 1)"
proof -
  have sym: "\<forall>x y :: nat. (x = y) = (y = x)" by auto
  have run: "detect_conflicts (=) ex_diverged 2 1 =
       [\<lparr>cd_feature_id = 7, cd_conflict_type = BOTH,
         cd_source_version = ex_version 13 2 7 2 1 0 UPDATE False,
         cd_target_version = ex_version 12 1 7 2 0 1 UPDATE False\<rparr>]"
    by (simp add: detect_conflicts_def get_latest_features_def versions_of_branch_def
          ex_diverged_def ex_database_def ex_version_def detect_conflict_type_def
          less_eq_prod_def)
  from sym run detect_conflicts_roles_swapped [OF sym, of ex_diverged 1 2]
  show ?thesis by simp
qed

section \<open>Properties of the merge\<close>

subsection \<open>The latest version of a feature\<close>

lemma find_filter_conv:
  "find P xs = (case filter P xs of [] \<Rightarrow> None | x # _ \<Rightarrow> Some x)"
  by (induction xs) auto

lemma insort_key_order_cong:
  "(\<And>y. y \<in> set ys \<Longrightarrow> (k x \<le> k y) = (k' x \<le> k' y))
     \<Longrightarrow> insort_key k x ys = insort_key k' x ys"
  by (induction ys) auto

lemma sort_key_order_cong:
  "(\<And>x y. x \<in> set xs \<Longrightarrow> y \<in> set xs \<Longrightarrow> (k x \<le> k y) = (k' x \<le> k' y))
     \<Longrightarrow> sort_key k xs = sort_key k' xs"
proof (induction xs)
  case Nil
  then show ?case by simp
next
  case (Cons x xs)
  then have "sort_key k xs = sort_key k' xs" by simp
  moreover have "insort_key k x (sort_key k' xs) = insort_key k' x (sort_key k' xs)"
    by (rule insort_key_order_cong) (simp add: Cons.prems)
  ultimately show ?case by simp
qed

lemma latest_features_lookup:
  "map_of (get_latest_features b db) f = latest_in_branch b f db"
proof -
  let ?k = "\<lambda>v::('a, 'b) feature_version. (feature_id v, - version v)"
  let ?rows = "filter (\<lambda>v. branch v = b \<and> feature_id v = f) (feature_versions db)"
  have "filter (\<lambda>v. feature_id v = f) (versions_of_branch b db) = sort_key ?k ?rows"
    by (simp add: versions_of_branch_def filter_sort conj_commute)
  also have "\<dots> = sort_key (\<lambda>v. - version v) ?rows"
    by (rule sort_key_order_cong) (auto simp: less_eq_prod_def)
  finally show ?thesis
    by (simp add: get_latest_features_def latest_loop_map_of find_filter_conv
          latest_in_branch_def)
qed

lemma sort_key_head:
  assumes "sort_key k xs = h # rest"
  shows "h \<in> set xs" "\<And>x. x \<in> set xs \<Longrightarrow> k h \<le> k x"
proof -
  have s: "set (h # rest) = set xs" using assms set_sort[of k xs] by simp
  then show "h \<in> set xs" by auto
  have "sorted (map k (h # rest))" using assms sorted_sort_key[of k xs] by simp
  then have "\<forall>y\<in>set rest. k h \<le> k y" by simp
  with s show "\<And>x. x \<in> set xs \<Longrightarrow> k h \<le> k x" by auto
qed

lemma sort_key_Nil: "sort_key k xs = [] \<Longrightarrow> xs = []"
  using length_sort[of k xs] by (simp del: length_sort)

lemma latest_in_branch_Some:
  assumes "latest_in_branch b f db = Some l"
  shows "l \<in> set (feature_versions db)" "branch l = b" "feature_id l = f"
    "\<And>x. x \<in> set (feature_versions db) \<Longrightarrow> branch x = b \<Longrightarrow> feature_id x = f
       \<Longrightarrow> version x \<le> version l"
proof -
  let ?rows = "filter (\<lambda>v. branch v = b \<and> feature_id v = f) (feature_versions db)"
  from assms obtain rest where srt: "sort_key (\<lambda>v. - version v) ?rows = l # rest"
    by (auto simp: latest_in_branch_def split: list.splits)
  from sort_key_head(1)[OF srt] show "l \<in> set (feature_versions db)" "branch l = b"
    "feature_id l = f" by auto
  fix x assume "x \<in> set (feature_versions db)" "branch x = b" "feature_id x = f"
  then have "x \<in> set ?rows" by simp
  from sort_key_head(2)[OF srt this] show "version x \<le> version l" by simp
qed

lemma latest_in_branch_None:
  assumes "latest_in_branch b f db = None" "x \<in> set (feature_versions db)" "branch x = b"
  shows "feature_id x \<noteq> f"
proof
  assume "feature_id x = f"
  with assms(2,3) have "x \<in> set (sort_key (\<lambda>v. - version v)
     (filter (\<lambda>v. branch v = b \<and> feature_id v = f) (feature_versions db)))" by simp
  moreover from assms(1) have "sort_key (\<lambda>v. - version v)
     (filter (\<lambda>v. branch v = b \<and> feature_id v = f) (feature_versions db)) = []"
    by (simp add: latest_in_branch_def split: list.splits)
  ultimately show False by (simp only: set_simps empty_iff)
qed

lemma latest_in_branch_append_other:
  assumes "branch r \<noteq> b \<or> feature_id r \<noteq> f"
  shows "latest_in_branch b f (db\<lparr>feature_versions := feature_versions db @ [r], next_id := n\<rparr>)
          = latest_in_branch b f db"
  using assms by (auto simp: latest_in_branch_def)

lemma latest_in_branch_append_new:
  assumes "branch r = b" "feature_id r = f"
    and "\<And>x. x \<in> set (feature_versions db) \<Longrightarrow> branch x = b \<Longrightarrow> feature_id x = f
       \<Longrightarrow> version x < version r"
  shows "latest_in_branch b f (db\<lparr>feature_versions := feature_versions db @ [r], next_id := n\<rparr>)
          = Some r"
proof -
  let ?rows = "filter (\<lambda>v. branch v = b \<and> feature_id v = f) (feature_versions db)"
  let ?s = "sort_key (\<lambda>v. - version v) (?rows @ [r])"
  have "?s \<noteq> []" using sort_key_Nil[of "\<lambda>v. - version v" "?rows @ [r]"] by blast
  then obtain h rest where hr: "?s = h # rest" by (cases ?s) auto
  have "h = r"
  proof (rule ccontr)
    assume "h \<noteq> r"
    with sort_key_head(1)[OF hr] have "h \<in> set ?rows" by auto
    then have "version h < version r" using assms(3) by simp
    moreover have "- version h \<le> - version r" using sort_key_head(2)[OF hr, of r] by simp
    ultimately show False by simp
  qed
  with hr assms(1,2) show ?thesis by (simp add: latest_in_branch_def)
qed

lemmas ex_run = merge_branches_def get_latest_features_def versions_of_branch_def
  create_merged_version_def latest_in_branch_def versions_equal_def branch_name_def
  ex_database_def ex_version_def ex_master_def ex_edits_def less_eq_prod_def Let_def

subsection \<open>The target branch after a merge\<close>

lemma head_version_lookup:
  "head_version b f db = (case latest_in_branch b f db of None \<Rightarrow> 0 | Some v \<Rightarrow> version v)"
  by (simp add: head_version_def latest_features_lookup)

lemma create_merged_version_cases:
  "create_merged_version sv t db =
     (if in_integer_range (head_version t (feature_id sv) db + 1)
      then Inr (db\<lparr>feature_versions := feature_versions db @
                   [\<lparr>fv_id = next_id db, branch = t, feature_id = feature_id sv,
                     version = head_version t (feature_id sv) db + 1,
                     geometry = geometry sv, properties = properties sv,
                     operation = MERGE, is_deleted = False, created_by = created_by sv,
                     comment = Some (''Merged from branch '' @ branch_name (branch sv) db)\<rparr>],
                 next_id := next_id db + 1\<rparr>)
      else Inl DataError)"
  by (simp add: create_merged_version_def Let_def head_version_lookup split: option.splits)

lemma create_merged_version_other:
  assumes "create_merged_version sv t db = Inr db1" and "feature_id sv \<noteq> f \<or> t \<noteq> b"
  shows "latest_in_branch b f db1 = latest_in_branch b f db"
  using assms
  by (auto simp: create_merged_version_cases latest_in_branch_append_other split: if_splits)

lemma create_merged_version_new:
  assumes "create_merged_version sv t db = Inr db1"
  shows "\<exists>r. latest_in_branch t (feature_id sv) db1 = Some r
     \<and> version r = head_version t (feature_id sv) db + 1
     \<and> geometry r = geometry sv \<and> properties r = properties sv"
proof -
  let ?r = "\<lparr>fv_id = next_id db, branch = t, feature_id = feature_id sv,
              version = head_version t (feature_id sv) db + 1,
              geometry = geometry sv, properties = properties sv,
              operation = MERGE, is_deleted = False, created_by = created_by sv,
              comment = Some (''Merged from branch '' @ branch_name (branch sv) db)\<rparr>"
  from assms have db1: "db1 = db\<lparr>feature_versions := feature_versions db @ [?r],
      next_id := next_id db + 1\<rparr>"
    by (simp add: create_merged_version_cases split: if_splits)
  have above: "\<And>x. x \<in> set (feature_versions db) \<Longrightarrow> branch x = t
      \<Longrightarrow> feature_id x = feature_id sv \<Longrightarrow> version x < version ?r"
  proof -
    fix x assume x: "x \<in> set (feature_versions db)" "branch x = t" "feature_id x = feature_id sv"
    show "version x < version ?r"
    proof (cases "latest_in_branch t (feature_id sv) db")
      case None
      from latest_in_branch_None[OF None x(1,2)] x(3) show ?thesis by simp
    next
      case (Some l)
      from latest_in_branch_Some(4)[OF Some x] Some show ?thesis
        by (simp add: head_version_lookup)
    qed
  qed
  have "latest_in_branch t (feature_id sv) db1 = Some ?r"
    unfolding db1 by (rule latest_in_branch_append_new) (use above in simp_all)
  then show ?thesis by simp
qed

lemma create_merged_version_source:
  "create_merged_version sv t db = Inr db1 \<Longrightarrow> s \<noteq> t
     \<Longrightarrow> get_latest_features s db1 = get_latest_features s db"
  by (auto simp: get_latest_features_def versions_of_branch_def create_merged_version_cases
        split: if_splits)

lemma create_merged_version_tables:
  "create_merged_version sv t db = Inr db1
     \<Longrightarrow> \<exists>xs n'. db1 = db\<lparr>feature_versions := xs, next_id := n'\<rparr>"
  by (auto simp: create_merged_version_cases split: if_splits)

lemma head_version_other:
  assumes "create_merged_version sv t db = Inr db1" and "feature_id sv \<noteq> f"
  shows "head_version t f db1 = head_version t f db"
  using create_merged_version_other[OF assms(1), of f t] assms(2)
  by (simp add: head_version_lookup)

lemma merge_loop_step:
  "merge_loop equals tf t (item # rest) db n =
     (if needs_merge equals tf item
      then (case create_merged_version (snd item) t db of
              Inl e \<Rightarrow> Inl e
            | Inr db1 \<Rightarrow> merge_loop equals tf t rest db1 (n + 1))
      else merge_loop equals tf t rest db n)"
  by (cases item) (simp add: needs_merge_def split: option.splits)

lemma merge_loop_count:
  "merge_loop equals tf t items db n = Inr (db', n')
     \<Longrightarrow> n' = n + length (filter (needs_merge equals tf) items)"
proof (induction items arbitrary: db n)
  case Nil
  then show ?case by simp
next
  case (Cons item items)
  show ?case
  proof (cases "needs_merge equals tf item")
    case True
    with Cons.prems obtain db1 where "merge_loop equals tf t items db1 (n + 1) = Inr (db', n')"
      by (auto simp add: merge_loop_step simp del: merge_loop.simps(2) split: sum.splits)
    from Cons.IH[OF this] True show ?thesis by simp
  next
    case False
    with Cons.prems have "merge_loop equals tf t items db n = Inr (db', n')"
      by (simp add: merge_loop_step del: merge_loop.simps(2))
    from Cons.IH[OF this] False show ?thesis by simp
  qed
qed

lemma merge_loop_source:
  "merge_loop equals tf t items db n = Inr (db', n') \<Longrightarrow> s \<noteq> t
     \<Longrightarrow> get_latest_features s db' = get_latest_features s db"
proof (induction items arbitrary: db n)
  case Nil
  then show ?case by simp
next
  case (Cons item items)
  then show ?case
    by (auto simp add: merge_loop_step create_merged_version_source
          simp del: merge_loop.simps(2) split: if_splits sum.splits)
qed

lemma merge_loop_tables:
  "merge_loop equals tf t items db n = Inr (db', n')
     \<Longrightarrow> \<exists>xs k. db' = db\<lparr>feature_versions := xs, next_id := k\<rparr>"
proof (induction items arbitrary: db n)
  case Nil
  have "db = db\<lparr>feature_versions := feature_versions db, next_id := next_id db\<rparr>" by simp
  with Nil show ?case by (metis Pair_inject merge_loop.simps(1) sum.inject(2))
next
  case (Cons item items)
  show ?case
  proof (cases "needs_merge equals tf item")
    case True
    with Cons.prems obtain db1 where c: "create_merged_version (snd item) t db = Inr db1"
      and r: "merge_loop equals tf t items db1 (n + 1) = Inr (db', n')"
      by (auto simp add: merge_loop_step simp del: merge_loop.simps(2) split: sum.splits)
    from create_merged_version_tables[OF c] obtain xs k
      where "db1 = db\<lparr>feature_versions := xs, next_id := k\<rparr>" by blast
    moreover from Cons.IH[OF r] obtain ys j
      where "db' = db1\<lparr>feature_versions := ys, next_id := j\<rparr>" by blast
    ultimately have "db' = db\<lparr>feature_versions := ys, next_id := j\<rparr>" by simp
    then show ?thesis by blast
  next
    case False
    with Cons.prems have "merge_loop equals tf t items db n = Inr (db', n')"
      by (simp add: merge_loop_step del: merge_loop.simps(2))
    from Cons.IH[OF this] show ?thesis .
  qed
qed

lemma merge_loop_untouched:
  assumes "merge_loop equals tf t items db n = Inr (db', n')"
    and "\<And>item. item \<in> set items \<Longrightarrow> needs_merge equals tf item \<Longrightarrow> feature_id (snd item) \<noteq> f"
  shows "latest_in_branch t f db' = latest_in_branch t f db"
  using assms
proof (induction items arbitrary: db n)
  case Nil
  then show ?case by simp
next
  case (Cons item items)
  show ?case
  proof (cases "needs_merge equals tf item")
    case True
    with Cons.prems(1) obtain db1 where c: "create_merged_version (snd item) t db = Inr db1"
      and r: "merge_loop equals tf t items db1 (n + 1) = Inr (db', n')"
      by (auto simp add: merge_loop_step simp del: merge_loop.simps(2) split: sum.splits)
    have "feature_id (snd item) \<noteq> f" using Cons.prems(2)[of item] True by simp
    then have "latest_in_branch t f db1 = latest_in_branch t f db"
      using create_merged_version_other[OF c, of f t] by simp
    moreover have "latest_in_branch t f db' = latest_in_branch t f db1"
      using Cons.IH[OF r] Cons.prems(2) by simp
    ultimately show ?thesis by simp
  next
    case False
    with Cons.prems(1) have "merge_loop equals tf t items db n = Inr (db', n')"
      by (simp add: merge_loop_step del: merge_loop.simps(2))
    from Cons.IH[OF this] Cons.prems(2) show ?thesis by simp
  qed
qed

lemma merge_loop_merged:
  assumes "merge_loop equals tf t items db n = Inr (db', n')"
    and "distinct (map fst items)"
    and "\<And>item. item \<in> set items \<Longrightarrow> feature_id (snd item) = fst item"
    and "(f, sv) \<in> set items" and "needs_merge equals tf (f, sv)"
  shows "\<exists>r. latest_in_branch t f db' = Some r
     \<and> version r = head_version t f db + 1
     \<and> geometry r = geometry sv \<and> properties r = properties sv"
  using assms
proof (induction items arbitrary: db n)
  case Nil
  then show ?case by simp
next
  case (Cons item items)
  have wf: "\<And>i. i \<in> set items \<Longrightarrow> feature_id (snd i) = fst i" using Cons.prems(3) by simp
  have d: "distinct (map fst items)" using Cons.prems(2) by simp
  show ?case
  proof (cases "item = (f, sv)")
    case True
    have fid: "feature_id sv = f" using Cons.prems(3)[of item] True by simp
    from Cons.prems(1,5) True obtain db1 where c: "create_merged_version sv t db = Inr db1"
      and r: "merge_loop equals tf t items db1 (n + 1) = Inr (db', n')"
      by (auto simp add: merge_loop_step simp del: merge_loop.simps(2) split: sum.splits)
    have "f \<notin> fst ` set items" using Cons.prems(2) True by simp
    with wf have rest: "\<And>i. i \<in> set items \<Longrightarrow> feature_id (snd i) \<noteq> f"
      by (metis imageI)
    have "latest_in_branch t f db' = latest_in_branch t f db1"
      by (rule merge_loop_untouched[OF r]) (rule rest)
    with create_merged_version_new[OF c] fid show ?thesis by simp
  next
    case False
    with Cons.prems have mem: "(f, sv) \<in> set items" by simp
    have "fst item \<notin> fst ` set items" using Cons.prems(2) by simp
    moreover have "f \<in> fst ` set items" using mem by force
    moreover have "feature_id (snd item) = fst item" using Cons.prems(3)[of item] by simp
    ultimately have neq: "feature_id (snd item) \<noteq> f" by metis
    show ?thesis
    proof (cases "needs_merge equals tf item")
      case True
      with Cons.prems(1) obtain db1 where c: "create_merged_version (snd item) t db = Inr db1"
        and r: "merge_loop equals tf t items db1 (n + 1) = Inr (db', n')"
        by (auto simp add: merge_loop_step simp del: merge_loop.simps(2) split: sum.splits)
      from Cons.IH[OF r d wf mem Cons.prems(5)] head_version_other[OF c neq]
      show ?thesis by simp
    next
      case False
      with Cons.prems(1) have r: "merge_loop equals tf t items db n = Inr (db', n')"
        by (simp add: merge_loop_step del: merge_loop.simps(2))
      from Cons.IH[OF r d wf mem Cons.prems(5)] show ?thesis .
    qed
  qed
qed

lemma merge_loop_returns:
  assumes "distinct (map fst items)"
    and "\<And>item. item \<in> set items \<Longrightarrow> feature_id (snd item) = fst item"
    and "\<And>item. item \<in> set items \<Longrightarrow> needs_merge equals tf item
           \<Longrightarrow> in_integer_range (head_version t (fst item) db + 1)"
  shows "\<exists>db'. merge_loop equals tf t items db n
           = Inr (db', n + length (filter (needs_merge equals tf) items))"
  using assms
proof (induction items arbitrary: db n)
  case Nil
  show ?case by simp
next
  case (Cons item items)
  have wf: "\<And>i. i \<in> set items \<Longrightarrow> feature_id (snd i) = fst i"
    using Cons.prems(2) by simp
  have d: "distinct (map fst items)" using Cons.prems(1) by simp
  have notin: "fst item \<notin> fst ` set items" using Cons.prems(1) by simp
  show ?case
  proof (cases "needs_merge equals tf item")
    case True
    have fi: "feature_id (snd item) = fst item" using Cons.prems(2)[of item] by simp
    have "in_integer_range (head_version t (fst item) db + 1)"
      using Cons.prems(3)[of item] True by simp
    then have "in_integer_range (head_version t (feature_id (snd item)) db + 1)"
      by (simp only: fi)
    then have "\<exists>db1. create_merged_version (snd item) t db = Inr db1"
      by (simp only: create_merged_version_cases if_True) blast
    then obtain db1 where c: "create_merged_version (snd item) t db = Inr db1" ..
    have rng: "\<And>i. i \<in> set items \<Longrightarrow> needs_merge equals tf i
           \<Longrightarrow> in_integer_range (head_version t (fst i) db1 + 1)"
    proof -
      fix i assume i: "i \<in> set items" "needs_merge equals tf i"
      from i(1) notin have "fst item \<noteq> fst i" by (metis imageI)
      with fi have neq: "feature_id (snd item) \<noteq> fst i" by metis
      have "head_version t (fst i) db1 = head_version t (fst i) db"
        by (rule head_version_other[OF c neq])
      moreover have "in_integer_range (head_version t (fst i) db + 1)"
        using Cons.prems(3)[of i] i by simp
      ultimately show "in_integer_range (head_version t (fst i) db1 + 1)" by simp
    qed
    from Cons.IH[OF d wf rng, of "n + 1"] obtain db'
      where r: "merge_loop equals tf t items db1 (n + 1)
                  = Inr (db', n + 1 + length (filter (needs_merge equals tf) items))"
      by blast
    have step: "merge_loop equals tf t (item # items) db n
        = merge_loop equals tf t items db1 (n + 1)"
      by (simp only: merge_loop_step True if_True c sum.case)
    have len: "n + length (filter (needs_merge equals tf) (item # items))
        = n + 1 + length (filter (needs_merge equals tf) items)"
      using True by simp
    show ?thesis unfolding step len using r by blast
  next
    case False
    have rng: "\<And>i. i \<in> set items \<Longrightarrow> needs_merge equals tf i
           \<Longrightarrow> in_integer_range (head_version t (fst i) db + 1)"
      using Cons.prems(3) by simp
    from Cons.IH[OF d wf rng, of n] obtain db'
      where r: "merge_loop equals tf t items db n
                  = Inr (db', n + length (filter (needs_merge equals tf) items))"
      by blast
    have step: "merge_loop equals tf t (item # items) db n = merge_loop equals tf t items db n"
      by (simp only: merge_loop_step False if_False)
    have len: "n + length (filter (needs_merge equals tf) (item # items))
        = n + length (filter (needs_merge equals tf) items)"
      using False by simp
    show ?thesis unfolding step len using r by blast
  qed
qed

lemma merge_loop_raises:
  assumes "distinct (map fst items)"
    and "\<And>item. item \<in> set items \<Longrightarrow> feature_id (snd item) = fst item"
    and "bad \<in> set items" and "needs_merge equals tf bad"
    and "\<not> in_integer_range (head_version t (fst bad) db + 1)"
  shows "merge_loop equals tf t items db n = Inl DataError"
  using assms
proof (induction items arbitrary: db n)
  case Nil
  then show ?case by simp
next
  case (Cons item items)
  have wf: "\<And>i. i \<in> set items \<Longrightarrow> feature_id (snd i) = fst i" using Cons.prems(2) by simp
  have d: "distinct (map fst items)" using Cons.prems(1) by simp
  have fi: "feature_id (snd item) = fst item" using Cons.prems(2)[of item] by simp
  show ?case
  proof (cases "item = bad")
    case True
    with Cons.prems(4,5) fi show ?thesis
      by (simp add: merge_loop_step create_merged_version_cases del: merge_loop.simps(2))
  next
    case False
    with Cons.prems(3) have mem: "bad \<in> set items" by simp
    have "fst item \<notin> fst ` set items" using Cons.prems(1) by simp
    with mem have "fst bad \<noteq> fst item" by (metis imageI)
    with fi have neq: "feature_id (snd item) \<noteq> fst bad" by simp
    show ?thesis
    proof (cases "needs_merge equals tf item")
      case True
      show ?thesis
      proof (cases "create_merged_version (snd item) t db")
        case (Inl e)
        then have "e = DataError" by (simp add: create_merged_version_cases split: if_splits)
        with Inl True show ?thesis
          by (simp add: merge_loop_step del: merge_loop.simps(2))
      next
        case (Inr db1)
        from head_version_other[OF Inr neq] Cons.prems(5)
        have "\<not> in_integer_range (head_version t (fst bad) db1 + 1)" by simp
        from Cons.IH[OF d wf mem Cons.prems(4) this, of "n + 1"] Inr True show ?thesis
          by (simp add: merge_loop_step del: merge_loop.simps(2))
      qed
    next
      case nm: False
      from Cons.IH[OF d wf mem Cons.prems(4,5), of n] nm show ?thesis
        by (simp add: merge_loop_step del: merge_loop.simps(2))
    qed
  qed
qed

lemma latest_features_entry:
  assumes "(f, sv) \<in> set (get_latest_features b db)"
  shows "latest_in_branch b f db = Some sv" "feature_id sv = f" "branch sv = b"
proof -
  from assms latest_keys_sorted(2)[of b db]
  have "map_of (get_latest_features b db) f = Some sv" by simp
  then show l: "latest_in_branch b f db = Some sv" by (simp add: latest_features_lookup)
  from latest_in_branch_Some(2,3)[OF l] show "feature_id sv = f" "branch sv = b" by simp_all
qed

lemma latest_features_wf:
  "item \<in> set (get_latest_features b db) \<Longrightarrow> feature_id (snd item) = fst item"
  using latest_features_entry(2)[of "fst item" "snd item" b db] by simp

text \<open>The result of one call of \<open>merge_branches\<close>.\<close>

lemma merge_branches_returns:
  assumes "\<And>item. item \<in> set (get_latest_features s db)
      \<Longrightarrow> needs_merge equals (get_latest_features t db) item
      \<Longrightarrow> in_integer_range (head_version t (fst item) db + 1)"
  shows "\<exists>db'. merge_branches equals s t db
     = Inr (db', length (filter (needs_merge equals (get_latest_features t db))
                           (get_latest_features s db)))"
proof -
  have "\<exists>db'. merge_loop equals (get_latest_features t db) t (get_latest_features s db) db 0
     = Inr (db', 0 + length (filter (needs_merge equals (get_latest_features t db))
                               (get_latest_features s db)))"
  proof (rule merge_loop_returns)
    show "distinct (map fst (get_latest_features s db))" by (rule latest_keys_sorted(2))
    show "\<And>item. item \<in> set (get_latest_features s db) \<Longrightarrow> feature_id (snd item) = fst item"
      by (rule latest_features_wf)
    show "\<And>item. item \<in> set (get_latest_features s db)
        \<Longrightarrow> needs_merge equals (get_latest_features t db) item
        \<Longrightarrow> in_integer_range (head_version t (fst item) db + 1)"
      by (rule assms)
  qed
  then show ?thesis by (simp add: merge_branches_def)
qed

lemma merge_branches_raises:
  assumes "bad \<in> set (get_latest_features s db)"
    and "needs_merge equals (get_latest_features t db) bad"
    and "\<not> in_integer_range (head_version t (fst bad) db + 1)"
  shows "merge_branches equals s t db = Inl DataError"
proof -
  have "merge_loop equals (get_latest_features t db) t (get_latest_features s db) db 0
     = Inl DataError"
  proof (rule merge_loop_raises[where bad=bad])
    show "distinct (map fst (get_latest_features s db))" by (rule latest_keys_sorted(2))
    show "\<And>item. item \<in> set (get_latest_features s db) \<Longrightarrow> feature_id (snd item) = fst item"
      by (rule latest_features_wf)
  qed (rule assms)+
  then show ?thesis by (simp add: merge_branches_def)
qed

lemma merge_loop_idle:
  "(\<And>item. item \<in> set items \<Longrightarrow> \<not> needs_merge equals tf item)
     \<Longrightarrow> merge_loop equals tf t items db n = Inr (db, n)"
  by (induction items arbitrary: db n) (simp_all add: merge_loop_step del: merge_loop.simps(2))

lemma needs_merge_lookup:
  "needs_merge equals (get_latest_features b db) (f, sv) =
     (\<not> is_deleted sv \<and>
      (case latest_in_branch b f db of
         None \<Rightarrow> True
       | Some tv \<Rightarrow> version sv > version tv \<or> \<not> versions_equal equals sv tv))"
  by (simp add: needs_merge_def latest_features_lookup split: option.splits)

lemma needs_merge_self:
  assumes "\<forall>g. equals g g" and "item \<in> set (get_latest_features s db)"
  shows "\<not> needs_merge equals (get_latest_features s db) item"
proof -
  obtain f sv where i: "item = (f, sv)" by (cases item)
  from latest_features_entry(1)[of f sv s db] assms i
  show ?thesis by (simp add: needs_merge_lookup versions_equal_def)
qed

lemma merge_branches_source:
  "merge_branches equals s t db = Inr (db1, n1) \<Longrightarrow> s \<noteq> t
     \<Longrightarrow> get_latest_features s db1 = get_latest_features s db"
  unfolding merge_branches_def Let_def by (rule merge_loop_source)

lemma after_merge:
  assumes rx: "\<forall>g. equals g g" and st: "s \<noteq> t"
    and run: "merge_branches equals s t db = Inr (db1, n1)"
    and mem: "(f, sv) \<in> set (get_latest_features s db)"
  shows "needs_merge equals (get_latest_features t db1) (f, sv)
         = (\<not> is_deleted sv \<and> version sv > head_version t f db + 1)"
    and "\<not> is_deleted sv \<Longrightarrow> version sv > head_version t f db + 1
         \<Longrightarrow> head_version t f db1 = head_version t f db + 1"
proof -
  let ?sf = "get_latest_features s db" and ?tf = "get_latest_features t db"
  have loop: "merge_loop equals ?tf t ?sf db 0 = Inr (db1, n1)"
    using run by (simp add: merge_branches_def)
  have wf: "\<And>item. item \<in> set ?sf \<Longrightarrow> feature_id (snd item) = fst item"
    by (rule latest_features_wf)
  have d: "distinct (map fst ?sf)" by (rule latest_keys_sorted(2))
  have both: "needs_merge equals (get_latest_features t db1) (f, sv)
         = (\<not> is_deleted sv \<and> version sv > head_version t f db + 1)
      \<and> (\<not> is_deleted sv \<longrightarrow> version sv > head_version t f db + 1
         \<longrightarrow> head_version t f db1 = head_version t f db + 1)"
  proof (cases "needs_merge equals ?tf (f, sv)")
    case True
    from merge_loop_merged[OF loop d wf mem True]
    obtain r where r: "latest_in_branch t f db1 = Some r"
      "version r = head_version t f db + 1"
      "geometry r = geometry sv" "properties r = properties sv"
      by blast
    from True have "\<not> is_deleted sv" by (simp add: needs_merge_def)
    with r rx show ?thesis
      by (simp add: needs_merge_lookup versions_equal_def head_version_lookup)
  next
    case False
    have "\<And>item. item \<in> set ?sf \<Longrightarrow> needs_merge equals ?tf item \<Longrightarrow> feature_id (snd item) \<noteq> f"
    proof
      fix item assume i: "item \<in> set ?sf" "needs_merge equals ?tf item" "feature_id (snd item) = f"
      with wf[of item] have "fst item = f" by simp
      with i(1) mem d have "item = (f, sv)"
        by (metis eq_key_imp_eq_value prod.collapse)
      with i(2) False show False by simp
    qed
    with loop have same: "latest_in_branch t f db1 = latest_in_branch t f db"
      by (rule merge_loop_untouched)
    show ?thesis
    proof (cases "is_deleted sv")
      case True
      then show ?thesis by (simp add: needs_merge_def)
    next
      case nd: False
      with False obtain tv where tv: "latest_in_branch t f db = Some tv"
        "version sv \<le> version tv" "versions_equal equals sv tv"
        by (auto simp: needs_merge_lookup split: option.splits)
      with nd same show ?thesis
        by (simp add: needs_merge_lookup head_version_lookup)
    qed
  qed
  from both show "needs_merge equals (get_latest_features t db1) (f, sv)
         = (\<not> is_deleted sv \<and> version sv > head_version t f db + 1)" by blast
  from both show "\<not> is_deleted sv \<Longrightarrow> version sv > head_version t f db + 1
         \<Longrightarrow> head_version t f db1 = head_version t f db + 1" by blast
qed

subsection \<open>Merging twice\<close>

text \<open>
  C2 (as stated, refuted). Branch 2 holds versions 1 and 2 of feature 7 and branch 1 holds
  none. The first merge writes version 1 of the feature into branch 1 and returns 1. The
  source version number 2 is still greater than the target's 1, so the second merge, with
  the source untouched, writes again and returns 1.
\<close>

theorem merge_branches_twice_not_idempotent: "merge_twice (=) 2 1 ex_unmerged = Inr (1, 1)"
  by (simp add: merge_twice_def in_integer_range_def ex_unmerged_def ex_run)

text \<open>
  C2 (amended). For every source and target branch, two consecutive calls of
  \<open>merge(source, target)\<close> with no edit in between behave as follows. A call writes, for
  a feature, the version number one above the target's latest version number of that
  feature, and raises \<open>DataError\<close>, writing nothing, when that number does not fit the
  32-bit column. When both calls return, the first returns the number of latest source
  versions that are not deleted and are missing from, newer than or different from the
  target's latest version, and the second returns the number of latest source versions
  that are not deleted and whose version number is more than one above the target's
  latest version number of the same feature before the first call (taken as 0 where the
  target had no version of the feature); the second count is 0 when there is no such
  version. The geometry predicate of the GEOS library is taken to be reflexive.
\<close>

theorem merge_twice_counts:
  assumes rx: "\<forall>g. equals g g"
  shows "merge_twice equals s t db =
     (if \<exists>item\<in>set (get_latest_features s db).
           needs_merge equals (get_latest_features t db) item
           \<and> \<not> in_integer_range (head_version t (fst item) db + 1)
      then Inl DataError
      else if \<exists>item\<in>set (get_latest_features s db).
           \<not> is_deleted (snd item) \<and> version (snd item) > head_version t (fst item) db + 1
           \<and> \<not> in_integer_range (head_version t (fst item) db + 2)
      then Inl DataError
      else Inr (length (filter (needs_merge equals (get_latest_features t db))
                          (get_latest_features s db)),
                length (filter (\<lambda>item. \<not> is_deleted (snd item)
                                   \<and> version (snd item) > head_version t (fst item) db + 1)
                          (get_latest_features s db))))"
    (is "_ = (if ?bad1 then _ else if ?bad2 then _ else Inr (?n1, length (filter ?K ?sf)))")
proof (cases ?bad1)
  case True
  then obtain bad where "bad \<in> set ?sf" "needs_merge equals (get_latest_features t db) bad"
    "\<not> in_integer_range (head_version t (fst bad) db + 1)" by blast
  then have "merge_branches equals s t db = Inl DataError" by (rule merge_branches_raises)
  with True show ?thesis by (simp add: merge_twice_def)
next
  case ok1: False
  then have "\<And>item. item \<in> set ?sf \<Longrightarrow> needs_merge equals (get_latest_features t db) item
      \<Longrightarrow> in_integer_range (head_version t (fst item) db + 1)" by blast
  from merge_branches_returns[OF this] obtain db1
    where run1: "merge_branches equals s t db = Inr (db1, ?n1)" by blast
  show ?thesis
  proof (cases "s = t")
    case True
    have idle: "\<And>item. item \<in> set ?sf \<Longrightarrow> \<not> needs_merge equals (get_latest_features s db) item"
      by (rule needs_merge_self[where equals=equals]) (rule rx)
    then have m: "merge_branches equals s s db = Inr (db, 0)"
      unfolding merge_branches_def Let_def by (rule merge_loop_idle)
    have n1: "filter (needs_merge equals (get_latest_features s db)) ?sf = []"
      using idle by (simp add: filter_empty_conv)
    have "\<And>item. item \<in> set ?sf \<Longrightarrow>
        \<not> (version (snd item) > head_version s (fst item) db + 1)"
    proof -
      fix item assume "item \<in> set ?sf"
      then have "latest_in_branch s (fst item) db = Some (snd item)"
        using latest_features_entry(1)[of "fst item" "snd item" s db] by simp
      then show "\<not> (version (snd item) > head_version s (fst item) db + 1)"
        by (simp add: head_version_lookup)
    qed
    then have k: "\<And>item. item \<in> set ?sf \<Longrightarrow>
        \<not> (\<not> is_deleted (snd item) \<and> version (snd item) > head_version s (fst item) db + 1)"
      by blast
    then have k0: "filter (\<lambda>item. \<not> is_deleted (snd item)
                   \<and> version (snd item) > head_version s (fst item) db + 1) ?sf = []"
      by (simp add: filter_empty_conv)
    have b2: "\<not> (\<exists>item\<in>set ?sf. \<not> is_deleted (snd item)
           \<and> version (snd item) > head_version s (fst item) db + 1
           \<and> \<not> in_integer_range (head_version s (fst item) db + 2))"
      using k by blast
    have b1: "\<not> (\<exists>item\<in>set ?sf. needs_merge equals (get_latest_features s db) item
           \<and> \<not> in_integer_range (head_version s (fst item) db + 1))"
      using idle by blast
    have "merge_twice equals s s db = Inr (0, 0)" by (simp add: merge_twice_def m)
    then show ?thesis unfolding True[symmetric] by (simp only: b1 b2 if_False n1 k0 list.size)
  next
    case False
    have src: "get_latest_features s db1 = ?sf"
      by (rule merge_branches_source[OF run1 False])
    have nd: "\<And>item. item \<in> set ?sf \<Longrightarrow>
        needs_merge equals (get_latest_features t db1) item = ?K item"
      using after_merge(1)[where equals=equals, OF rx False run1] by (metis prod.collapse)
    have hv: "\<And>item. item \<in> set ?sf \<Longrightarrow> ?K item \<Longrightarrow>
        head_version t (fst item) db1 = head_version t (fst item) db + 1"
      using after_merge(2)[where equals=equals, OF rx False run1] by (metis prod.collapse)
    have cnt: "filter (needs_merge equals (get_latest_features t db1)) ?sf = filter ?K ?sf"
      by (rule filter_cong[OF HOL.refl]) (rule nd)
    show ?thesis
    proof (cases ?bad2)
      case True
      then obtain bad where b: "bad \<in> set ?sf" "?K bad"
        "\<not> in_integer_range (head_version t (fst bad) db + 2)" by blast
      have "merge_branches equals s t db1 = Inl DataError"
      proof (rule merge_branches_raises[where bad=bad])
        show "bad \<in> set (get_latest_features s db1)" using b(1) src by simp
        show "needs_merge equals (get_latest_features t db1) bad" using nd[OF b(1)] b(2) by simp
        show "\<not> in_integer_range (head_version t (fst bad) db1 + 1)"
          using hv[OF b(1,2)] b(3) by (simp add: in_integer_range_def)
      qed
      with run1 ok1 True show ?thesis by (simp add: merge_twice_def)
    next
      case ok2: False
      have "\<And>item. item \<in> set (get_latest_features s db1)
          \<Longrightarrow> needs_merge equals (get_latest_features t db1) item
          \<Longrightarrow> in_integer_range (head_version t (fst item) db1 + 1)"
      proof -
        fix item assume i: "item \<in> set (get_latest_features s db1)"
          "needs_merge equals (get_latest_features t db1) item"
        then have m: "item \<in> set ?sf" and k: "?K item" using src nd by simp_all
        with ok2 have "in_integer_range (head_version t (fst item) db + 2)" by blast
        with hv[OF m k] show "in_integer_range (head_version t (fst item) db1 + 1)"
          by (simp add: in_integer_range_def)
      qed
      from merge_branches_returns[OF this] obtain db2
        where "merge_branches equals s t db1
          = Inr (db2, length (filter (needs_merge equals (get_latest_features t db1))
                                (get_latest_features s db1)))" by blast
      then have "merge_branches equals s t db1 = Inr (db2, length (filter ?K ?sf))"
        by (simp only: src cnt)
      with run1 have "merge_twice equals s t db = Inr (?n1, length (filter ?K ?sf))"
        by (simp add: merge_twice_def)
      with ok1 ok2 show ?thesis by (simp only: if_False)
    qed
  qed
qed

theorem merge_twice_counts_witness:
  "(\<forall>g :: nat. g = g) \<and> merge_twice (=) 2 1 ex_diverged = Inr (1, 0)"
proof -
  have r: "\<forall>g :: nat. g = g" by simp
  from merge_twice_counts [of "(=)" 2 1 ex_diverged] r show ?thesis
    by (simp add: head_version_def needs_merge_def in_integer_range_def ex_diverged_def
          ex_run)
qed

section \<open>Properties of the version numbers\<close>

text \<open>
  C4 (the source breaks it). \<open>soft_delete\<close> of a feature numbers the new version one above
  the version of the row it was called on, not one above the latest version of the
  feature, as \<open>_create_merged_version\<close> does. Called twice on the row of version 1, it
  stores version 2 twice: the numbers 1, 2, 2 are not the sequence 1..N.
  \<open>perform_update\<close> takes \<open>old_feature.version + 1\<close> from the addressed row in the same
  way; what its \<open>serializer.save\<close> then stores is decided by the REST framework, which is
  not part of the repository, so the evaluation below uses \<open>soft_delete\<close>, which creates
  its row itself.
\<close>

theorem feature_soft_delete_twice_duplicates_version:
  "map (\<lambda>v. (fv_id v, branch v, feature_id v, version v, is_deleted v))
       (feature_versions ex_deleted_twice)
     = [(101, 2, 100, 1, False), (103, 2, 100, 2, True), (105, 2, 100, 2, True)]"
  by (simp add: ex_deleted_twice_def feature_soft_delete_def feature_perform_create_def
        get_feature_version_def create_audit_log_def in_integer_range_def ex_database_def
        ex_editor_def Let_def)

section \<open>Properties of the merge request views\<close>

lemmas ex_api = ex_superuser_def ex_editor_def ex_request_def
  ex_with_request_def ex_conflict_def ex_with_conflict_def ex_unmerged_def ex_diverged_def
  ex_at_limit_def get_merge_request_def get_branch_def save_merge_request_def
  save_branch_def create_audit_log_def can_approve_def not_found_def

lemma get_merge_request_id: "get_merge_request pk db = Some m \<Longrightarrow> mr_id m = pk"
  by (auto simp: get_merge_request_def find_Some_iff)

lemma find_replace:
  "find (\<lambda>r. key r = k) xs = Some old \<Longrightarrow> key new = k
     \<Longrightarrow> find (\<lambda>r. key r = k) (map (\<lambda>r. if key r = k then new else r) xs) = Some new"
  by (induction xs) (auto split: if_splits)

lemma get_after_save_merge_request:
  "get_merge_request pk db = Some old \<Longrightarrow> mr_id new = pk
     \<Longrightarrow> get_merge_request pk (save_merge_request new db) = Some new"
  using find_replace[of mr_id pk "merge_requests db" old new]
  by (simp add: get_merge_request_def save_merge_request_def)

lemma merge_branches_tables:
  assumes "merge_branches equals s t db = Inr (db1, n)"
  shows "merge_requests db1 = merge_requests db"
    "merge_conflicts db1 = merge_conflicts db"
    "branches db1 = branches db"
proof -
  from assms obtain xs k where "db1 = db\<lparr>feature_versions := xs, next_id := k\<rparr>"
    unfolding merge_branches_def Let_def using merge_loop_tables by blast
  then show "merge_requests db1 = merge_requests db"
    "merge_conflicts db1 = merge_conflicts db"
    "branches db1 = branches db" by simp_all
qed

lemma reject_authorised:
  assumes "get_merge_request pk db = Some m" "can_approve u"
  shows "map_option mr_status (get_merge_request pk (snd (reject now u c pk db))) = Some MR_rejected"
    "feature_versions (snd (reject now u c pk db)) = feature_versions db"
proof -
  let ?m = "m\<lparr>mr_status := MR_rejected, reviewed_by := Some (user_id u),
               reviewed_at := Some now, review_comment := Some c\<rparr>"
  have id: "mr_id ?m = pk" using get_merge_request_id[OF assms(1)] by simp
  have "get_merge_request pk (create_audit_log (user_id u) ''REJECT_MERGE_REQUEST''
          ''merge_request'' (mr_id m) (save_merge_request ?m db)) = Some ?m"
    using get_after_save_merge_request[OF assms(1) id]
    by (simp add: get_merge_request_def create_audit_log_def)
  with assms show "map_option mr_status (get_merge_request pk (snd (reject now u c pk db)))
      = Some MR_rejected"
    by (simp add: reject_def Let_def)
  from assms show "feature_versions (snd (reject now u c pk db)) = feature_versions db"
    by (simp add: reject_def Let_def create_audit_log_def save_merge_request_def)
qed

lemma approve_runs_merge:
  assumes "get_merge_request pk db = Some m" "can_approve u"
    and "\<forall>c\<in>set (merge_conflicts db). mc_merge_request c = pk \<longrightarrow> mc_resolved c"
  shows "approve equals now u pk db =
     (case merge_branches equals (mr_source_branch m) (mr_target_branch m) db of
        Inl e \<Rightarrow> (Response HTTP_500_INTERNAL_SERVER_ERROR (Failure ''Merge failed: '' e), db)
      | Inr (db1, merged_count) \<Rightarrow>
          (let db2 = save_merge_request
                       (m\<lparr>mr_status := MR_merged, reviewed_by := Some (user_id u),
                          reviewed_at := Some now\<rparr>) db1;
               db3 = (case get_branch (mr_source_branch m) db2 of
                        None \<Rightarrow> db2
                      | Some b \<Rightarrow> save_branch (b\<lparr>br_status := Merged,
                                                    merged_at := Some now\<rparr>) db2)
           in (Response HTTP_200_OK
                 (Message ''Merge request approved and merged successfully''),
               create_audit_log (user_id u) ''APPROVE_MERGE_REQUEST'' ''merge_request''
                 (mr_id m) db3)))"
proof -
  have id: "mr_id m = pk" by (rule get_merge_request_id[OF assms(1)])
  have none: "filter (\<lambda>c. mc_merge_request c = mr_id m \<and> mc_resolved c = False)
                (merge_conflicts db) = []"
    using assms(3) id by (auto simp: filter_empty_conv)
  show ?thesis using assms(1,2) none
    by (simp add: approve_def Let_def split: sum.splits prod.splits)
qed

lemma approve_merged:
  assumes "get_merge_request pk db = Some m" "can_approve u"
    and "\<forall>c\<in>set (merge_conflicts db). mc_merge_request c = pk \<longrightarrow> mc_resolved c"
    and run: "merge_branches equals (mr_source_branch m) (mr_target_branch m) db = Inr (db1, n)"
  shows "fst (approve equals now u pk db)
      = Response HTTP_200_OK (Message ''Merge request approved and merged successfully'')"
    "map_option mr_status (get_merge_request pk (snd (approve equals now u pk db)))
      = Some MR_merged"
    "feature_versions (snd (approve equals now u pk db)) = feature_versions db1"
proof -
  let ?m = "m\<lparr>mr_status := MR_merged, reviewed_by := Some (user_id u), reviewed_at := Some now\<rparr>"
  let ?db2 = "save_merge_request ?m db1"
  let ?db3 = "case get_branch (mr_source_branch m) ?db2 of None \<Rightarrow> ?db2
              | Some b \<Rightarrow> save_branch (b\<lparr>br_status := Merged, merged_at := Some now\<rparr>) ?db2"
  have id: "mr_id m = pk" by (rule get_merge_request_id[OF assms(1)])
  have res: "approve equals now u pk db
      = (Response HTTP_200_OK (Message ''Merge request approved and merged successfully''),
         create_audit_log (user_id u) ''APPROVE_MERGE_REQUEST'' ''merge_request'' (mr_id m) ?db3)"
    using approve_runs_merge[OF assms(1-3), of equals now] run by (simp add: Let_def)
  have g1: "get_merge_request pk db1 = Some m"
    using assms(1) by (simp add: get_merge_request_def merge_branches_tables[OF run])
  have g2: "get_merge_request pk ?db2 = Some ?m"
    using get_after_save_merge_request[OF g1, of ?m] id by simp
  have g3: "get_merge_request pk ?db3 = Some ?m"
    using g2 by (simp add: get_merge_request_def save_branch_def split: option.splits)
  show "fst (approve equals now u pk db)
      = Response HTTP_200_OK (Message ''Merge request approved and merged successfully'')"
    by (simp add: res)
  show "map_option mr_status (get_merge_request pk (snd (approve equals now u pk db)))
      = Some MR_merged"
    using g3 by (simp add: res get_merge_request_def create_audit_log_def)
  show "feature_versions (snd (approve equals now u pk db)) = feature_versions db1"
    by (simp add: res create_audit_log_def save_branch_def save_merge_request_def
          split: option.splits)
qed

lemma approve_merge_failed:
  assumes "get_merge_request pk db = Some m" "can_approve u"
    and "\<forall>c\<in>set (merge_conflicts db). mc_merge_request c = pk \<longrightarrow> mc_resolved c"
    and run: "merge_branches equals (mr_source_branch m) (mr_target_branch m) db = Inl e"
  shows "approve equals now u pk db
      = (Response HTTP_500_INTERNAL_SERVER_ERROR (Failure ''Merge failed: '' e), db)"
  using approve_runs_merge[OF assms(1-3), of equals now] run by simp

lemma refused:
  assumes "\<not> can_approve u"
  shows "snd (reject now u c pk db) = db" "snd (approve equals now u pk db) = db"
  using assms by (simp_all add: reject_def approve_def split: option.splits)

subsection \<open>Requests in a terminal status\<close>

text \<open>
  C3 (as stated, refuted). \<open>reject\<close> by a superuser moves a merged request to rejected,
  and \<open>approve\<close> by a superuser moves a rejected request to merged and writes a version
  into the target branch.
\<close>

theorem terminal_status_left_by_reject_and_approve:
  "map mr_status (merge_requests (ex_with_request MR_merged)) = [MR_merged]
   \<and> map mr_status (merge_requests
        (snd (reject 9 ex_superuser ''late'' 50 (ex_with_request MR_merged)))) = [MR_rejected]
   \<and> map mr_status (merge_requests (ex_with_request MR_rejected)) = [MR_rejected]
   \<and> map mr_status (merge_requests
        (snd (approve (=) 9 ex_superuser 50 (ex_with_request MR_rejected)))) = [MR_merged]
   \<and> length (feature_versions (ex_with_request MR_rejected)) = 2
   \<and> length (feature_versions
        (snd (approve (=) 9 ex_superuser 50 (ex_with_request MR_rejected)))) = 3"
  by (simp add: reject_def approve_def in_integer_range_def ex_api ex_run)

text \<open>
  C3 (amended). \<open>approve\<close> and \<open>reject\<close> do not read the status of the merge request,
  so a request whose status is merged or rejected is treated as any other. For an actor
  who passes the permission check, \<open>reject\<close> sets the status to rejected and writes no
  feature version. For such an actor and a request without an unresolved bound conflict,
  \<open>approve\<close> runs the merge: when the merge returns, the answer is 200, the status is set
  to merged and the feature versions are those the merge has written; when the merge
  raises, the answer is 500 and the state is as before. For an actor who is refused, both
  operations leave the state as it is.
\<close>

theorem approve_reject_ignore_status:
  assumes "get_merge_request pk db = Some m"
  shows "(can_approve u \<longrightarrow>
            map_option mr_status (get_merge_request pk (snd (reject now u c pk db)))
              = Some MR_rejected
            \<and> feature_versions (snd (reject now u c pk db)) = feature_versions db)
       \<and> (can_approve u
            \<and> (\<forall>x\<in>set (merge_conflicts db). mc_merge_request x = pk \<longrightarrow> mc_resolved x) \<longrightarrow>
            (case merge_branches equals (mr_source_branch m) (mr_target_branch m) db of
               Inr (db1, merged_count) \<Rightarrow>
                 fst (approve equals now u pk db)
                   = Response HTTP_200_OK
                       (Message ''Merge request approved and merged successfully'')
                 \<and> map_option mr_status
                      (get_merge_request pk (snd (approve equals now u pk db)))
                     = Some MR_merged
                 \<and> feature_versions (snd (approve equals now u pk db))
                     = feature_versions db1
             | Inl e \<Rightarrow>
                 approve equals now u pk db
                   = (Response HTTP_500_INTERNAL_SERVER_ERROR
                        (Failure ''Merge failed: '' e), db)))
       \<and> (\<not> can_approve u \<longrightarrow>
            snd (reject now u c pk db) = db \<and> snd (approve equals now u pk db) = db)"
proof (intro conjI impI)
  assume "can_approve u"
  then show "map_option mr_status (get_merge_request pk (snd (reject now u c pk db)))
      = Some MR_rejected"
    and "feature_versions (snd (reject now u c pk db)) = feature_versions db"
    by (rule reject_authorised[OF assms])+
next
  assume a: "can_approve u
      \<and> (\<forall>x\<in>set (merge_conflicts db). mc_merge_request x = pk \<longrightarrow> mc_resolved x)"
  then have ca: "can_approve u"
    and nu: "\<forall>x\<in>set (merge_conflicts db). mc_merge_request x = pk \<longrightarrow> mc_resolved x"
    by blast+
  show "case merge_branches equals (mr_source_branch m) (mr_target_branch m) db of
          Inr (db1, merged_count) \<Rightarrow>
            fst (approve equals now u pk db)
              = Response HTTP_200_OK
                  (Message ''Merge request approved and merged successfully'')
            \<and> map_option mr_status
                 (get_merge_request pk (snd (approve equals now u pk db)))
                = Some MR_merged
            \<and> feature_versions (snd (approve equals now u pk db))
                = feature_versions db1
        | Inl e \<Rightarrow>
            approve equals now u pk db
              = (Response HTTP_500_INTERNAL_SERVER_ERROR
                   (Failure ''Merge failed: '' e), db)"
  proof (cases "merge_branches equals (mr_source_branch m) (mr_target_branch m) db")
    case (Inl e)
    from approve_merge_failed[OF assms ca nu Inl] Inl show ?thesis by simp
  next
    case (Inr r)
    obtain db1 n where r: "r = (db1, n)" by (cases r)
    from approve_merged[OF assms ca nu Inr[unfolded r]] Inr r show ?thesis by simp
  qed
next
  assume "\<not> can_approve u"
  then show "snd (reject now u c pk db) = db" and "snd (approve equals now u pk db) = db"
    by (rule refused)+
qed

theorem approve_reject_ignore_status_witness:
  "get_merge_request 50 (ex_with_request MR_merged) = Some (ex_request MR_merged)
   \<and> can_approve ex_superuser
   \<and> merge_conflicts (ex_with_request MR_merged) = []
   \<and> map_option mr_status (get_merge_request 50
        (snd (reject 9 ex_superuser ''late'' 50 (ex_with_request MR_merged)))) = Some MR_rejected
   \<and> map_option mr_status (get_merge_request 50
        (snd (approve (=) 9 ex_superuser 50 (ex_with_request MR_merged)))) = Some MR_merged
   \<and> get_merge_request 50 ex_at_limit = Some (ex_request MR_pending)
   \<and> merge_conflicts ex_at_limit = []
   \<and> approve (=) 9 ex_superuser 50 ex_at_limit
       = (Response HTTP_500_INTERNAL_SERVER_ERROR (Failure ''Merge failed: '' DataError),
          ex_at_limit)"
proof -
  have g: "get_merge_request 50 (ex_with_request MR_merged) = Some (ex_request MR_merged)"
    by (simp add: ex_api ex_database_def)
  have a: "can_approve ex_superuser" by (simp add: ex_api)
  have n: "merge_conflicts (ex_with_request MR_merged) = []" by (simp add: ex_api ex_database_def)
  have m: "\<exists>db1. merge_branches (=) (mr_source_branch (ex_request MR_merged))
             (mr_target_branch (ex_request MR_merged)) (ex_with_request MR_merged)
           = Inr (db1, 1)"
    by (simp add: in_integer_range_def ex_api ex_run)
  have g': "get_merge_request 50 ex_at_limit = Some (ex_request MR_pending)"
    by (simp add: ex_api ex_database_def)
  have n': "merge_conflicts ex_at_limit = []" by (simp add: ex_api ex_database_def)
  have m': "merge_branches (=) (mr_source_branch (ex_request MR_pending))
             (mr_target_branch (ex_request MR_pending)) ex_at_limit = Inl DataError"
    by (simp add: in_integer_range_def ex_api ex_run)
  from approve_reject_ignore_status [OF g, of ex_superuser 9 "''late''" "(=)"]
    approve_reject_ignore_status [OF g', of ex_superuser 9 "''late''" "(=)"]
    g a n m g' n' m'
  show ?thesis by auto
qed

subsection \<open>Approval with an unresolved conflict\<close>

text \<open>
  C5 (as stated, refuted). The permission check comes first: for an actor without the
  permission, \<open>approve\<close> on a request with an unresolved conflict answers 403 (an
  authorization error), not the 400 of the unresolved conflicts.
\<close>

theorem approve_unresolved_refused_actor_forbidden:
  "get_merge_request 50 ex_with_conflict = Some (ex_request MR_conflicts)
   \<and> mc_merge_request ex_conflict = 50 \<and> mc_resolved ex_conflict = False
   \<and> ex_conflict \<in> set (merge_conflicts ex_with_conflict)
   \<and> approve (=) 9 ex_editor 50 ex_with_conflict =
       (Response HTTP_403_FORBIDDEN
          (Error ''You do not have permission to approve merge requests''), ex_with_conflict)"
  by (simp add: approve_def ex_api ex_run)

text \<open>
  C5 (amended). For every merge request with at least one bound conflict that is not
  resolved, \<open>approve\<close> always fails and leaves the whole state unchanged (no merge, the
  status as before): with the 400 response "Cannot merge: n unresolved conflicts" when
  the actor passes the permission check, with the 403 response of the permission check
  otherwise.
\<close>

theorem approve_unresolved_fails:
  assumes "get_merge_request pk db = Some m"
    and "c \<in> set (merge_conflicts db)" and "mc_merge_request c = pk" and "\<not> mc_resolved c"
  shows "approve equals now u pk db =
     (if can_approve u
      then Response HTTP_400_BAD_REQUEST
             (Error (''Cannot merge: '' @
                str_nat (length (filter (\<lambda>x. mc_merge_request x = pk \<and> \<not> mc_resolved x)
                                   (merge_conflicts db)))
                @ '' unresolved conflicts''))
      else Response HTTP_403_FORBIDDEN
             (Error ''You do not have permission to approve merge requests''), db)"
proof -
  have id: "mr_id m = pk" by (rule get_merge_request_id[OF assms(1)])
  have "c \<in> set (filter (\<lambda>x. mc_merge_request x = pk \<and> \<not> mc_resolved x) (merge_conflicts db))"
    using assms by simp
  then have "0 < length (filter (\<lambda>x. mc_merge_request x = pk \<and> \<not> mc_resolved x) (merge_conflicts db))"
    by (metis length_greater_0_conv empty_iff list.set(1))
  with assms(1) id show ?thesis by (simp add: approve_def Let_def)
qed

theorem approve_unresolved_fails_witness:
  "get_merge_request 50 ex_with_conflict = Some (ex_request MR_conflicts)
   \<and> ex_conflict \<in> set (merge_conflicts ex_with_conflict)
   \<and> mc_merge_request ex_conflict = 50 \<and> \<not> mc_resolved ex_conflict
   \<and> can_approve ex_superuser
   \<and> approve (=) 9 ex_superuser 50 ex_with_conflict =
       (Response HTTP_400_BAD_REQUEST (Error ''Cannot merge: 1 unresolved conflicts''),
        ex_with_conflict)"
proof -
  have g: "get_merge_request 50 ex_with_conflict = Some (ex_request MR_conflicts)"
    by (simp add: ex_api ex_database_def)
  have m: "ex_conflict \<in> set (merge_conflicts ex_with_conflict)" by (simp add: ex_api ex_database_def)
  have r: "mc_merge_request ex_conflict = 50" "\<not> mc_resolved ex_conflict" by (simp_all add: ex_api)
  have a: "can_approve ex_superuser" by (simp add: ex_api)
  have n: "str_nat (length (filter (\<lambda>x. mc_merge_request x = 50 \<and> \<not> mc_resolved x)
                                   (merge_conflicts ex_with_conflict))) = ''1''"
    by (simp add: ex_api ex_database_def str_nat.simps)
  from approve_unresolved_fails [OF g m r, of "(=)" 9 ex_superuser] g m r a n show ?thesis by simp
qed

subsection \<open>Who may approve\<close>

text \<open>
  C6. For the users of the configured system, which have no profile with a role,
  \<open>_can_approve\<close> holds for superusers only. So \<open>approve\<close> and \<open>reject\<close> succeed only for
  an actor who is a superuser, and such an actor is authorized by
  \<open>MergeRequest.can_user_approve\<close> and by \<open>PermissionManager.can_approve_merge_request\<close>;
  every actor whom one of these two refuses gets the answer 403, and the state is
  unchanged.
\<close>

theorem approve_reject_only_authorised:
  assumes "profile_role u = None" and "get_merge_request pk db = Some m"
  shows "(status_code (fst (approve equals now u pk db)) = HTTP_200_OK \<longrightarrow>
            is_superuser u \<and> can_user_approve m u db \<and> can_approve_merge_request u m db)
       \<and> (status_code (fst (reject now u c pk db)) = HTTP_200_OK \<longrightarrow>
            is_superuser u \<and> can_user_approve m u db \<and> can_approve_merge_request u m db)
       \<and> (\<not> can_user_approve m u db \<or> \<not> can_approve_merge_request u m db \<longrightarrow>
            approve equals now u pk db
              = (Response HTTP_403_FORBIDDEN
                   (Error ''You do not have permission to approve merge requests''), db)
            \<and> reject now u c pk db
              = (Response HTTP_403_FORBIDDEN
                   (Error ''You do not have permission to reject merge requests''), db))"
proof -
  have ca: "can_approve u = is_superuser u" using assms(1) by (simp add: can_approve_def)
  have su: "is_superuser u \<Longrightarrow> can_user_approve m u db \<and> can_approve_merge_request u m db"
    by (simp add: can_user_approve_def can_approve_merge_request_def is_admin_def)
  have no: "\<not> is_superuser u \<Longrightarrow>
      approve equals now u pk db
        = (Response HTTP_403_FORBIDDEN
             (Error ''You do not have permission to approve merge requests''), db)
      \<and> reject now u c pk db
        = (Response HTTP_403_FORBIDDEN
             (Error ''You do not have permission to reject merge requests''), db)"
    using assms(2) ca by (simp add: approve_def reject_def)
  show ?thesis
  proof (cases "is_superuser u")
    case True
    with su show ?thesis by simp
  next
    case False
    with no show ?thesis by simp
  qed
qed

theorem approve_reject_only_authorised_witness:
  "profile_role ex_superuser = None \<and> profile_role ex_editor = None
   \<and> get_merge_request 50 (ex_with_request MR_pending) = Some (ex_request MR_pending)
   \<and> status_code (fst (approve (=) 9 ex_superuser 50 (ex_with_request MR_pending))) = HTTP_200_OK
   \<and> can_user_approve (ex_request MR_pending) ex_superuser (ex_with_request MR_pending)
   \<and> can_approve_merge_request ex_superuser (ex_request MR_pending) (ex_with_request MR_pending)
   \<and> \<not> can_approve_merge_request ex_editor (ex_request MR_pending) (ex_with_request MR_pending)
   \<and> approve (=) 9 ex_editor 50 (ex_with_request MR_pending)
       = (Response HTTP_403_FORBIDDEN
            (Error ''You do not have permission to approve merge requests''),
          ex_with_request MR_pending)
   \<and> reject 9 ex_editor ''no'' 50 (ex_with_request MR_pending)
       = (Response HTTP_403_FORBIDDEN
            (Error ''You do not have permission to reject merge requests''),
          ex_with_request MR_pending)"
proof -
  have ps: "profile_role ex_superuser = None" and pe: "profile_role ex_editor = None"
    by (simp_all add: ex_api)
  have g: "get_merge_request 50 (ex_with_request MR_pending) = Some (ex_request MR_pending)"
    by (simp add: ex_api ex_database_def)
  have ok: "status_code (fst (approve (=) 9 ex_superuser 50 (ex_with_request MR_pending)))
      = HTTP_200_OK"
    by (simp add: approve_def in_integer_range_def ex_api ex_run)
  have ne: "\<not> can_approve_merge_request ex_editor (ex_request MR_pending)
      (ex_with_request MR_pending)"
    by (simp add: can_approve_merge_request_def is_admin_def branch_group_def ex_api
          ex_database_def ex_master_def ex_edits_def)
  from approve_reject_only_authorised [OF ps g, of "(=)" 9 "''no''"]
    approve_reject_only_authorised [OF pe g, of "(=)" 9 "''no''"] ps pe g ok ne
  show ?thesis by simp
qed

section \<open>Properties of the branch views\<close>

text \<open>
  C7 (as stated, refuted). The ownership check comes first: a user who is neither the
  creator of the master branch nor a superuser gets 403 (an authorization error), not the
  400 "Cannot delete master branch".
\<close>

theorem branch_soft_delete_master_forbidden:
  "get_branch 1 ex_unmerged = Some ex_master \<and> is_master ex_master
   \<and> branch_soft_delete ex_editor 1 ex_unmerged =
       (Response HTTP_403_FORBIDDEN
          (Error ''You do not have permission to delete this branch''), ex_unmerged)"
  by (simp add: branch_soft_delete_def is_master_def ex_api ex_database_def ex_master_def
        ex_edits_def)

text \<open>
  C7 (amended). For every branch with no parent and the name "master", every call of
  the branch's \<open>soft_delete\<close> fails and leaves the whole state unchanged, so the branch
  does not reach the status deleted, whatever the roles of the user: the answer is 403
  when the user is neither the creator nor a superuser and 400 "Cannot delete master
  branch" otherwise; \<open>PermissionManager.can_delete_branch\<close> is false for every user.
\<close>

theorem branch_soft_delete_master_fails:
  assumes "get_branch pk db = Some b" and "is_master b"
  shows "branch_soft_delete u pk db =
     (if br_created_by b \<noteq> user_id u \<and> \<not> is_superuser u
      then Response HTTP_403_FORBIDDEN
             (Error ''You do not have permission to delete this branch'')
      else Response HTTP_400_BAD_REQUEST (Error ''Cannot delete master branch''), db)
     \<and> \<not> can_delete_branch u b db"
  using assms by (simp add: branch_soft_delete_def can_delete_branch_def)

theorem branch_soft_delete_master_fails_witness:
  "get_branch 1 ex_unmerged = Some ex_master \<and> is_master ex_master
   \<and> branch_soft_delete ex_superuser 1 ex_unmerged =
       (Response HTTP_400_BAD_REQUEST (Error ''Cannot delete master branch''), ex_unmerged)
   \<and> \<not> can_delete_branch ex_superuser ex_master ex_unmerged"
proof -
  have g: "get_branch 1 ex_unmerged = Some ex_master"
    by (simp add: ex_api ex_database_def ex_master_def ex_edits_def)
  have m: "is_master ex_master" by (simp add: is_master_def ex_master_def)
  from branch_soft_delete_master_fails [OF g m, of ex_superuser] g m show ?thesis
    by (simp add: ex_superuser_def ex_master_def)
qed

section \<open>Properties of the conflict resolver\<close>

text \<open>
  C8. \<open>resolve_conflict\<close> with the strategy MANUAL and no manual geometry or no manual
  properties raises \<open>ValueError\<close>, and so does every strategy other than SOURCE, TARGET
  and MANUAL; the persisted state, and with it the conflict's row, is unchanged.
\<close>

theorem resolve_conflict_invalid_input:
  "(strategy = ''MANUAL'' \<and> (mg = None \<or> mp = None) \<longrightarrow>
      resolve_conflict e now c strategy u mg mp db =
        (Inl (ValueError ''Manual resolution requires geometry and properties''), db))
   \<and> (strategy \<noteq> ''SOURCE'' \<and> strategy \<noteq> ''TARGET'' \<and> strategy \<noteq> ''MANUAL'' \<longrightarrow>
      resolve_conflict e now c strategy u mg mp db =
        (Inl (ValueError (''Invalid resolution strategy: '' @ strategy)), db))"
  by (auto simp: resolve_conflict_def)

theorem resolve_conflict_invalid_input_witness:
  "resolve_conflict 0 9 ex_conflict ''MANUAL'' 1 None None ex_with_conflict =
     (Inl (ValueError ''Manual resolution requires geometry and properties''), ex_with_conflict)
   \<and> resolve_conflict 0 9 ex_conflict ''MANUAL'' 1 (Some 4) None ex_with_conflict =
     (Inl (ValueError ''Manual resolution requires geometry and properties''), ex_with_conflict)
   \<and> resolve_conflict 0 9 ex_conflict ''THEIRS'' 1 None None ex_with_conflict =
     (Inl (ValueError ''Invalid resolution strategy: THEIRS''), ex_with_conflict)
   \<and> map mc_resolved (merge_conflicts ex_with_conflict) = [False]"
  using resolve_conflict_invalid_input [of "''MANUAL''" None None 0 9 ex_conflict 1 ex_with_conflict]
    resolve_conflict_invalid_input [of "''MANUAL''" "Some 4" None 0 9 ex_conflict 1 ex_with_conflict]
    resolve_conflict_invalid_input [of "''THEIRS''" None None 0 9 ex_conflict 1 ex_with_conflict]
  by (simp add: ex_api ex_database_def)

text \<open>
  C9. For every valid resolution input (SOURCE, TARGET, or MANUAL with both manual
  values) \<open>resolve_conflict\<close> raises \<open>NameError\<close> for the global \<open>timezone\<close>, which
  \<open>services.py\<close> never binds, before \<open>conflict.save()\<close>; no call, valid or not, changes
  the persisted state.
\<close>

theorem resolve_conflict_name_error:
  "(strategy = ''SOURCE'' \<or> strategy = ''TARGET''
      \<or> strategy = ''MANUAL'' \<and> mg \<noteq> None \<and> mp \<noteq> None \<longrightarrow>
      resolve_conflict e now c strategy u mg mp db = (Inl (NameError ''timezone''), db))
   \<and> snd (resolve_conflict e now c strategy u mg mp db) = db"
  by (auto simp: resolve_conflict_def services_globals_def Let_def)

theorem resolve_conflict_name_error_witness:
  "resolve_conflict 0 9 ex_conflict ''SOURCE'' 1 None None ex_with_conflict =
     (Inl (NameError ''timezone''), ex_with_conflict)
   \<and> resolve_conflict 0 9 ex_conflict ''TARGET'' 1 None None ex_with_conflict =
     (Inl (NameError ''timezone''), ex_with_conflict)
   \<and> resolve_conflict 0 9 ex_conflict ''MANUAL'' 1 (Some 4) (Some 5) ex_with_conflict =
     (Inl (NameError ''timezone''), ex_with_conflict)
   \<and> map mc_resolved (merge_conflicts ex_with_conflict) = [False]"
  using resolve_conflict_name_error [of "''SOURCE''" None None 0 9 ex_conflict 1 ex_with_conflict]
    resolve_conflict_name_error [of "''TARGET''" None None 0 9 ex_conflict 1 ex_with_conflict]
    resolve_conflict_name_error [of "''MANUAL''" "Some 4" "Some 5" 0 9 ex_conflict 1 ex_with_conflict]
  by (simp add: ex_api ex_database_def)

end
